theory Spec2Isabelle
  imports Complex_Main "HOL-Library.Sublist"
begin

section \<open>Python values and builtins\<close>

text \<open>
  The loaders of \<^verbatim>\<open>openelex/us/fl/load.py\<close> are embedded with the semantics of
  Python 3 for the builtins they call. A string is a list of 8-bit characters: the
  source files are decoded as latin-1, so every character of a row is a code point
  below 256. An exception is a value of \<open>error\<close>; a function that can raise
  returns \<open>error + 'a\<close>, with \<open>Inl\<close> for the exception.
\<close>

datatype error =
    KeyError string
  | IndexError
  | ValueError
  | OverflowError
  | TypeError

definition bind :: "error + 'a \<Rightarrow> ('a \<Rightarrow> error + 'b) \<Rightarrow> error + 'b" where
  "bind m f = (case m of Inl e \<Rightarrow> Inl e | Inr x \<Rightarrow> f x)"

subsection \<open>Strings\<close>

definition code_point :: "char \<Rightarrow> nat" where
  "code_point c = of_char c"

text \<open>
  \<^verbatim>\<open>str.strip()\<close> removes the characters for which \<^verbatim>\<open>str.isspace\<close> holds. Below 256
  these are U+0009..U+000D, U+001C..U+001F, U+0020, U+0085 and U+00A0.
\<close>

definition isspace :: "char \<Rightarrow> bool" where
  "isspace c = (let n = code_point c in
     (9 \<le> n \<and> n \<le> 13) \<or> (28 \<le> n \<and> n \<le> 32) \<or> n = 133 \<or> n = 160)"

definition strip :: "string \<Rightarrow> string" where
  "strip s = rev (dropWhile isspace (rev (dropWhile isspace s)))"

text \<open>
  \<^verbatim>\<open>str.upper()\<close>. The result is a list of code points, since the upper case of
  three latin-1 characters lies outside latin-1 or is longer than one character:
  U+00B5 gives U+039C, U+00DF gives \<^verbatim>\<open>SS\<close>, U+00FF gives U+0178.
\<close>

definition upper_char :: "char \<Rightarrow> nat list" where
  "upper_char c = (let n = code_point c in
     if 97 \<le> n \<and> n \<le> 122 then [n - 32]
     else if n = 181 then [924]
     else if n = 223 then [83, 83]
     else if 224 \<le> n \<and> n \<le> 254 \<and> n \<noteq> 247 then [n - 32]
     else if n = 255 then [376]
     else [n])"

definition upper :: "string \<Rightarrow> nat list" where
  "upper s = concat (map upper_char s)"

definition code_points :: "string \<Rightarrow> nat list" where
  "code_points s = map code_point s"

text \<open>\<^verbatim>\<open>sep.join(bits)\<close> on a list of strings.\<close>

fun join :: "string \<Rightarrow> string list \<Rightarrow> string" where
  "join sep [] = []"
| "join sep [x] = x"
| "join sep (x # y # ys) = x @ sep @ join sep (y # ys)"

subsection \<open>Floats\<close>

text \<open>
  A Python float is an IEEE 754 binary64 value. A finite one is kept as a signed
  mantissa \<open>m\<close> and a binary exponent \<open>e\<close>, and denotes \<open>m * 2 ^ e\<close>; beside
  them stand the two infinities and NaN.
\<close>

datatype pyfloat = Finite int int | PosInf | NegInf | NaN

text \<open>The number of binary digits of a positive integer.\<close>

function bitlen :: "int \<Rightarrow> int" where
  "bitlen n = (if n \<le> 0 then 0 else 1 + bitlen (n div 2))"
  by pat_completeness auto
termination
  by (relation "measure nat") auto

declare bitlen.simps [simp del]

text \<open>For \<open>0 < p\<close> and \<open>0 < q\<close>, the \<open>k\<close> with \<open>2 ^ k \<le> p / q < 2 ^ (k + 1)\<close>.\<close>

definition floor_log2 :: "int \<Rightarrow> int \<Rightarrow> int" where
  "floor_log2 p q = (let k = bitlen p - bitlen q in
     if (if 0 \<le> k then q * 2 ^ nat k \<le> p else q \<le> p * 2 ^ nat (- k)) then k else k - 1)"

text \<open>The integer nearest to \<open>p / q\<close>, a tie going to the even one.\<close>

definition round_half_even :: "int \<Rightarrow> int \<Rightarrow> int" where
  "round_half_even p q = (let f = p div q; r = p mod q in
     if 2 * r < q then f
     else if q < 2 * r then f + 1
     else if even f then f else f + 1)"

text \<open>
  Rounding of \<open>p / q\<close>, negated when \<open>neg\<close>, to the nearest binary64 value, ties to
  even: 53 bits of mantissa, the least exponent of a subnormal is \<open>- 1074\<close>, and a
  result of \<open>2 ^ 1024\<close> or more is an infinity.
\<close>

definition round_double :: "bool \<Rightarrow> int \<Rightarrow> int \<Rightarrow> pyfloat" where
  "round_double neg p q = (if p = 0 then Finite 0 0 else
     let e = max (floor_log2 p q - 52) (- 1074);
         m = (if 0 \<le> e then round_half_even p (q * 2 ^ nat e)
              else round_half_even (p * 2 ^ nat (- e)) q)
     in if 0 \<le> e \<and> 2 ^ 1024 \<le> m * 2 ^ nat e then (if neg then NegInf else PosInf)
        else Finite (if neg then - m else m) e)"

text \<open>
  \<^verbatim>\<open>float(s)\<close> on a string. Leading and trailing white space is dropped (here
  U+001C..U+001F do not count as white space); an underscore is accepted between two
  digits; what is left is an optional sign followed by \<^verbatim>\<open>inf\<close>, \<^verbatim>\<open>infinity\<close> or
  \<^verbatim>\<open>nan\<close> in any case, or by a decimal number with an optional fraction and an
  optional exponent. Anything else is a \<^verbatim>\<open>ValueError\<close>.
\<close>

definition float_space :: "char \<Rightarrow> bool" where
  "float_space c = (let n = code_point c in
     (9 \<le> n \<and> n \<le> 13) \<or> n = 32 \<or> n = 133 \<or> n = 160)"

definition is_digit :: "char \<Rightarrow> bool" where
  "is_digit c = (let n = code_point c in 48 \<le> n \<and> n \<le> 57)"

definition digits_value :: "string \<Rightarrow> int" where
  "digits_value ds = foldl (\<lambda>acc c. 10 * acc + (int (code_point c) - 48)) 0 ds"

fun underscores_ok :: "char option \<Rightarrow> string \<Rightarrow> bool" where
  "underscores_ok prev [] = (prev \<noteq> Some CHR ''_'')"
| "underscores_ok prev (c # cs) =
     (if c = CHR ''_'' then
        (case prev of None \<Rightarrow> False | Some p \<Rightarrow> is_digit p) \<and> underscores_ok (Some c) cs
      else (prev \<noteq> Some CHR ''_'' \<or> is_digit c) \<and> underscores_ok (Some c) cs)"

definition lower_ascii :: "string \<Rightarrow> string" where
  "lower_ascii s = map (\<lambda>c. let n = code_point c in
     if 65 \<le> n \<and> n \<le> 90 then char_of (n + 32) else c) s"

definition split_sign :: "string \<Rightarrow> bool \<times> string" where
  "split_sign s = (case s of
       c # cs \<Rightarrow> if c = CHR ''-'' then (True, cs) else if c = CHR ''+'' then (False, cs)
                 else (False, s)
     | [] \<Rightarrow> (False, s))"

definition parse_exponent :: "string \<Rightarrow> error + int" where
  "parse_exponent s = (case s of
       [] \<Rightarrow> Inr 0
     | c # cs \<Rightarrow>
         if c = CHR ''e'' \<or> c = CHR ''E'' then
           (let (neg, r) = split_sign cs;
                ds = takeWhile is_digit r
            in if ds = [] \<or> dropWhile is_digit r \<noteq> [] then Inl ValueError
               else Inr (if neg then - digits_value ds else digits_value ds))
         else Inl ValueError)"

text \<open>A decimal number: the pair \<open>(n, ex)\<close> stands for \<open>n * 10 ^ ex\<close>.\<close>

definition parse_number :: "string \<Rightarrow> error + int \<times> int" where
  "parse_number s = (let ip = takeWhile is_digit s; r1 = dropWhile is_digit s;
       dot = (r1 \<noteq> [] \<and> hd r1 = CHR ''.'');
       fp = (if dot then takeWhile is_digit (tl r1) else []);
       r2 = (if dot then dropWhile is_digit (tl r1) else r1)
     in if ip = [] \<and> fp = [] then Inl ValueError
        else bind (parse_exponent r2) (\<lambda>ex.
          Inr (digits_value (ip @ fp), ex - int (length fp))))"

definition py_float :: "string \<Rightarrow> error + pyfloat" where
  "py_float s = (let t = rev (dropWhile float_space (rev (dropWhile float_space s))) in
     if \<not> underscores_ok None t then Inl ValueError
     else let (neg, r) = split_sign (filter (\<lambda>c. c \<noteq> CHR ''_'') t); l = lower_ascii r in
       if l = ''inf'' \<or> l = ''infinity'' then Inr (if neg then NegInf else PosInf)
       else if l = ''nan'' then Inr NaN
       else bind (parse_number r) (\<lambda>(n, ex).
         Inr (if 0 \<le> ex then round_double neg (n * 10 ^ nat ex) 1
              else round_double neg n (10 ^ nat (- ex)))))"

text \<open>
  \<^verbatim>\<open>int(f)\<close> on a float truncates toward zero; it raises \<^verbatim>\<open>OverflowError\<close> on an
  infinity and \<^verbatim>\<open>ValueError\<close> on NaN.
\<close>

fun py_int :: "pyfloat \<Rightarrow> error + int" where
  "py_int (Finite m e) =
     Inr (if 0 \<le> e then m * 2 ^ nat e else sgn m * (\<bar>m\<bar> div 2 ^ nat (- e)))"
| "py_int PosInf = Inl OverflowError"
| "py_int NegInf = Inl OverflowError"
| "py_int NaN = Inl ValueError"

text \<open>
  The number a finite float denotes, and truncation of a rational toward zero: the
  terms in which the coercion of a vote count is specified.
\<close>

definition float_value :: "int \<Rightarrow> int \<Rightarrow> rat" where
  "float_value m e = (if 0 \<le> e then of_int m * 2 ^ nat e else of_int m / 2 ^ nat (- e))"

definition trunc_toward_zero :: "rat \<Rightarrow> int" where
  "trunc_toward_zero q = (if 0 \<le> q then \<lfloor>q\<rfloor> else \<lceil>q\<rceil>)"

section \<open>Vote coercion\<close>

text \<open>
  \<^verbatim>\<open>FlLoader._votes\<close>: a blank string gives 0; otherwise \<^verbatim>\<open>int(float(val))\<close>, where
  a \<^verbatim>\<open>ValueError\<close> of either call gives 0 and any other exception leaves the method.
\<close>

definition FlLoader_votes :: "string \<Rightarrow> error + int" where
  "FlLoader_votes val =
     (if strip val = [] then Inr 0
      else (case bind (py_float val) py_int of
              Inl ValueError \<Rightarrow> Inr 0
            | Inl e \<Rightarrow> Inl e
            | Inr n \<Rightarrow> Inr n))"

section \<open>Data model\<close>

text \<open>
  A source row is the dictionary \<^verbatim>\<open>DictReader\<close> yields: column name to raw string.
  Reading a column the row does not have raises; the model has one exception for
  it, \<open>KeyError\<close> with the column's name.
\<close>

type_synonym row = "string \<rightharpoonup> string"

definition field :: "row \<Rightarrow> string \<Rightarrow> error + string" where
  "field r k = (case r k of None \<Rightarrow> Inl (KeyError k) | Some v \<Rightarrow> Inr v)"

text \<open>
  Keyword arguments are a dictionary from attribute name to value, and
  \<^verbatim>\<open>RawResult(**kwargs)\<close> is the document holding exactly these attributes.
  \<^verbatim>\<open>d.update(e)\<close> is \<open>d ++ e\<close>.
\<close>

datatype val = Str string | Num int

type_synonym kwargs = "string \<rightharpoonup> val"

type_synonym rawresult = kwargs

text \<open>An entry of \<^verbatim>\<open>Datasource._jurisdictions()\<close>.\<close>

record jurisdiction =
  county :: string
  ocd_id :: string

text \<open>
  What the loaders use and \<^verbatim>\<open>load.py\<close> does not define is a parameter of the
  model: the helpers \<^verbatim>\<open>slugify\<close> (its second argument is the optional
  \<^verbatim>\<open>substitute\<close>) and \<^verbatim>\<open>ocd_type_id\<close> of \<^verbatim>\<open>openelex.lib.text\<close>, the
  properties \<^verbatim>\<open>contest_slug\<close> and \<^verbatim>\<open>candidate_slug\<close> of \<^verbatim>\<open>RawResult\<close>, the
  jurisdiction list of the datasource, the result of
  \<^verbatim>\<open>_build_common_election_kwargs()\<close> and \<^verbatim>\<open>mapping['ocd_id']\<close>.
\<close>

record env =
  slugify :: "string \<Rightarrow> string option \<Rightarrow> string"
  ocd_type_id :: "string \<Rightarrow> string"
  contest_slug :: "rawresult \<Rightarrow> string"
  candidate_slug :: "rawresult \<Rightarrow> string"
  jurisdictions :: "jurisdiction list"
  election_kwargs :: kwargs
  mapping_ocd_id :: string

text \<open>
  The external store: the batches \<^verbatim>\<open>RawResult.objects.insert\<close> was called with,
  in the order of the calls.
\<close>

type_synonym store = "rawresult list list"

section \<open>The county-summary loader\<close>

definition target_offices :: "string set" where
  "target_offices = {
     ''U.S. President by Congressional District'',
     ''President of the United States'',
     ''United States Senator'',
     ''United States Representative'',
     ''State Representative'',
     ''State Senate'',
     ''State Senator'',
     ''Governor'',
     ''Governor and Lieutenant Governor'',
     ''Attorney General'',
     ''Chief Financial Officer'',
     ''Commissioner of Agriculture''}"

definition district_offices :: "string set" where
  "district_offices = {
     ''United States Representative'',
     ''State Representative'',
     ''State Senate'',
     ''State Senator''}"

definition FlLoader_skip_row :: "row \<Rightarrow> error + bool" where
  "FlLoader_skip_row r =
     bind (field r ''OfficeDesc'') (\<lambda>v. Inr (strip v \<notin> target_offices))"

definition FlLoader_build_contest_kwargs :: "row \<Rightarrow> error + kwargs" where
  "FlLoader_build_contest_kwargs r =
     bind (field r ''OfficeDesc'') (\<lambda>v.
       let kw = [''office'' \<mapsto> Str (strip v)] in
       if strip v \<in> district_offices
       then bind (field r ''Juris1num'') (\<lambda>j. Inr (kw(''district'' \<mapsto> Str (strip j))))
       else Inr kw)"

definition FlLoader_build_candidate_kwargs :: "row \<Rightarrow> error + kwargs" where
  "FlLoader_build_candidate_kwargs r =
     bind (field r ''CanNameLast'') (\<lambda>l.
     bind (field r ''CanNameFirst'') (\<lambda>f.
     bind (field r ''CanNameMiddle'') (\<lambda>m.
       Inr [''family_name'' \<mapsto> Str (strip l),
            ''given_name'' \<mapsto> Str (strip f),
            ''additional_name'' \<mapsto> Str (strip m)])))"

definition FlLoader_build_result_kwargs :: "env \<Rightarrow> row \<Rightarrow> error + kwargs" where
  "FlLoader_build_result_kwargs E r =
     bind (field r ''CountyName'') (\<lambda>c.
     let jur = strip c in
     bind (field r ''PartyName'') (\<lambda>p.
     bind (field r ''CanVotes'') (\<lambda>v.
     let kw = [''party'' \<mapsto> Str (strip p),
               ''jurisdiction'' \<mapsto> Str jur,
               ''ocd_id'' \<mapsto> Str (mapping_ocd_id E @ ''/county:'' @ ocd_type_id E jur),
               ''votes'' \<mapsto> Str (strip v)] in
     bind (field r ''OfficeDesc'') (\<lambda>od.
       if strip od = ''U.S. President by Congressional District''
       then bind (field r ''Juris1num'') (\<lambda>j.
              Inr (kw(''reporting_level'' \<mapsto> Str ''congressional_district_by_county'',
                      ''reporting_district'' \<mapsto> Str (strip j))))
       else Inr (kw(''reporting_level'' \<mapsto> Str ''county''))))))"

definition FlLoader_prep_result :: "env \<Rightarrow> row \<Rightarrow> error + rawresult" where
  "FlLoader_prep_result E r =
     bind (FlLoader_build_contest_kwargs r) (\<lambda>ck.
     bind (FlLoader_build_candidate_kwargs r) (\<lambda>ak.
     bind (FlLoader_build_result_kwargs E r) (\<lambda>rk.
       Inr (election_kwargs E ++ ck ++ ak ++ rk))))"

text \<open>
  \<^verbatim>\<open>FlLoader._key\<close>. \<^verbatim>\<open>district\<close> is appended when it is truthy; reading
  \<^verbatim>\<open>reporting_district\<close> of a result that has none raises the
  \<^verbatim>\<open>AttributeError\<close> the method catches. \<^verbatim>\<open>'-'.join\<close> raises \<^verbatim>\<open>TypeError\<close> on a
  bit that is not a string, as does \<^verbatim>\<open>slugify\<close> on a jurisdiction that is none.
\<close>

definition truthy :: "val \<Rightarrow> bool" where
  "truthy v = (case v of Str s \<Rightarrow> s \<noteq> [] | Num n \<Rightarrow> n \<noteq> 0)"

fun strs :: "val list \<Rightarrow> error + string list" where
  "strs [] = Inr []"
| "strs (Str s # vs) = bind (strs vs) (\<lambda>ss. Inr (s # ss))"
| "strs (Num n # vs) = Inl TypeError"

definition FlLoader_key :: "env \<Rightarrow> rawresult \<Rightarrow> error + string" where
  "FlLoader_key E res =
     (case res ''jurisdiction'' of
        Some (Str j) \<Rightarrow>
          let bits = [Str (contest_slug E res), Str (candidate_slug E res),
                      Str (slugify E j None)];
              bits = (case res ''district'' of
                        Some d \<Rightarrow> if truthy d then bits @ [d] else bits
                      | None \<Rightarrow> bits);
              bits = (case res ''reporting_district'' of
                        Some rd \<Rightarrow> bits @ [rd]
                      | None \<Rightarrow> bits)
          in bind (strs bits) (\<lambda>ss. Inr (join ''-'' ss))
      | _ \<Rightarrow> Inl TypeError)"

text \<open>
  The loop of \<^verbatim>\<open>FlLoader.load\<close> over the rows, with the list \<^verbatim>\<open>results\<close> and the
  set \<^verbatim>\<open>seen\<close> as its state. The call of \<^verbatim>\<open>logging.info\<close> on a skipped row changes
  neither and is left out.
\<close>

fun FlLoader_rows ::
  "env \<Rightarrow> row list \<Rightarrow> rawresult list \<Rightarrow> string set \<Rightarrow> error + rawresult list" where
  "FlLoader_rows E [] results seen = Inr results"
| "FlLoader_rows E (r # rs) results seen =
     bind (FlLoader_skip_row r) (\<lambda>skip.
       if skip then FlLoader_rows E rs results seen
       else bind (FlLoader_prep_result E r) (\<lambda>result.
            bind (FlLoader_key E result) (\<lambda>key.
              if key \<notin> seen
              then FlLoader_rows E rs (results @ [result]) (insert key seen)
              else FlLoader_rows E rs results seen)))"

definition FlLoader_load :: "env \<Rightarrow> row list \<Rightarrow> store \<Rightarrow> (error + unit) \<times> store" where
  "FlLoader_load E rows st =
     (case FlLoader_rows E rows [] {} of
        Inl e \<Rightarrow> (Inl e, st)
      | Inr results \<Rightarrow> (Inr (), st @ [results]))"

section \<open>The precinct-detail loader\<close>

definition PrecinctLoader_skip_row :: "row \<Rightarrow> error + bool" where
  "PrecinctLoader_skip_row r =
     bind (field r ''contest_name'') (\<lambda>c.
       if (\<exists>t \<in> target_offices. sublist t c) then Inr False else Inr True)"

definition PrecinctLoader_build_contest_kwargs :: "row \<Rightarrow> error + kwargs" where
  "PrecinctLoader_build_contest_kwargs r =
     bind (field r ''contest_name'') (\<lambda>c.
     bind (field r ''district'') (\<lambda>d.
       Inr [''office'' \<mapsto> Str c, ''district'' \<mapsto> Str (strip d)]))"

text \<open>
  \<^verbatim>\<open>PrecinctLoader._build_candidate_kwargs\<close> assigns to \<^verbatim>\<open>row['candidate']\<close>: the
  row it leaves behind is returned with the keyword arguments.
\<close>

definition PrecinctLoader_build_candidate_kwargs ::
  "env \<Rightarrow> row \<Rightarrow> error + row \<times> kwargs" where
  "PrecinctLoader_build_candidate_kwargs E r =
     bind (field r ''candidate'') (\<lambda>c.
       let r' = (if strip c = ''UnderVotes'' then r(''candidate'' \<mapsto> ''Under Votes'')
                 else if strip c = ''OverVotes'' then r(''candidate'' \<mapsto> ''Over Votes'')
                 else if strip c = ''WriteinVotes'' then r(''candidate'' \<mapsto> ''Write-ins'')
                 else r) in
       bind (field r' ''candidate'') (\<lambda>c'.
         let full_name = strip c'; slug = slugify E full_name (Some ''-'') in
         Inr (r', [''full_name'' \<mapsto> Str full_name, ''name_slug'' \<mapsto> Str slug])))"

text \<open>
  The county's identifier: the first entry of the jurisdiction list whose upper-cased
  name is the row's upper-cased county name followed by \<^verbatim>\<open>' COUNTY'\<close>; indexing the
  empty list of matches raises \<^verbatim>\<open>IndexError\<close>. The comprehension reads
  \<^verbatim>\<open>row['county_name']\<close> once per entry, so not at all on an empty list.
\<close>

definition county_matches :: "env \<Rightarrow> string \<Rightarrow> jurisdiction list" where
  "county_matches E name =
     filter (\<lambda>c. upper (county c) = upper name @ code_points '' COUNTY'') (jurisdictions E)"

definition county_ocd_id :: "env \<Rightarrow> row \<Rightarrow> error + string" where
  "county_ocd_id E r =
     (if jurisdictions E = [] then Inl IndexError
      else bind (field r ''county_name'') (\<lambda>n.
        case county_matches E n of
          [] \<Rightarrow> Inl IndexError
        | c # _ \<Rightarrow> Inr (ocd_id c)))"

definition PrecinctLoader_prep_precinct_result ::
  "env \<Rightarrow> kwargs \<Rightarrow> row \<Rightarrow> error + rawresult" where
  "PrecinctLoader_prep_precinct_result E common r =
     bind (PrecinctLoader_build_contest_kwargs r) (\<lambda>ck.
     bind (PrecinctLoader_build_candidate_kwargs E r) (\<lambda>(r', ak).
     bind (field r' ''precinct_id'') (\<lambda>pid.
     bind (field r' ''polling_location'') (\<lambda>pl.
     let precinct = strip (pid @ '' '' @ pl) in
     bind (county_ocd_id E r') (\<lambda>cid.
     bind (field r' ''county_name'') (\<lambda>cn.
     bind (field r' ''party'') (\<lambda>p.
     bind (field r' ''votes'') (\<lambda>v.
     bind (FlLoader_votes v) (\<lambda>n.
       Inr (common ++ ck ++ ak ++
            [''reporting_level'' \<mapsto> Str ''precinct'',
             ''jurisdiction'' \<mapsto> Str precinct,
             ''parent_jurisdiction'' \<mapsto> Str cn,
             ''ocd_id'' \<mapsto> Str (cid @ ''/precinct:'' @ ocd_type_id E pid),
             ''party'' \<mapsto> Str (strip p),
             ''votes'' \<mapsto> Num n]))))))))))"

fun PrecinctLoader_rows ::
  "env \<Rightarrow> kwargs \<Rightarrow> row list \<Rightarrow> rawresult list \<Rightarrow> error + rawresult list" where
  "PrecinctLoader_rows E common [] results = Inr results"
| "PrecinctLoader_rows E common (r # rs) results =
     bind (PrecinctLoader_skip_row r) (\<lambda>skip.
       if skip then PrecinctLoader_rows E common rs results
       else bind (PrecinctLoader_prep_precinct_result E common r) (\<lambda>result.
              PrecinctLoader_rows E common rs (results @ [result])))"

definition PrecinctLoader_load ::
  "env \<Rightarrow> row list \<Rightarrow> store \<Rightarrow> (error + unit) \<times> store" where
  "PrecinctLoader_load E rows st =
     (let common = (election_kwargs E)(''reporting_level'' \<mapsto> Str ''precinct'') in
      case PrecinctLoader_rows E common rows [] of
        Inl e \<Rightarrow> (Inl e, st)
      | Inr results \<Rightarrow> (Inr (), st @ [results]))"

section \<open>Specification-side definitions\<close>

text \<open>
  The candidate name of a precinct row after the substitution of the three literal
  values; every other value passes through trimmed.
\<close>

definition candidate_name :: "string \<Rightarrow> string" where
  "candidate_name c =
     (if strip c = ''UnderVotes'' then ''Under Votes''
      else if strip c = ''OverVotes'' then ''Over Votes''
      else if strip c = ''WriteinVotes'' then ''Write-ins''
      else strip c)"

text \<open>
  The deduplicator as the specification words it: a record whose key is already in
  the set is discarded, the first record seen for a key is kept.
\<close>

fun first_seen :: "('a \<Rightarrow> 'k) \<Rightarrow> 'k set \<Rightarrow> 'a list \<Rightarrow> 'a list" where
  "first_seen key seen [] = []"
| "first_seen key seen (x # xs) =
     (if key x \<in> seen then first_seen key seen xs
      else x # first_seen key (insert (key x) seen) xs)"

subsection \<open>An instance of the parameters\<close>

text \<open>
  Modelled from the spec: the helper \<^verbatim>\<open>slugify\<close> of \<^verbatim>\<open>openelex.lib.text\<close>, which
  is not part of \<^verbatim>\<open>load.py\<close>. The specification describes its result as lower
  case, with every run of non-alphanumeric characters collapsed to a single hyphen;
  here the run is replaced by the \<^verbatim>\<open>substitute\<close> argument when one is given.
\<close>

definition is_alnum :: "char \<Rightarrow> bool" where
  "is_alnum c = (let n = code_point c in
     (48 \<le> n \<and> n \<le> 57) \<or> (65 \<le> n \<and> n \<le> 90) \<or> (97 \<le> n \<and> n \<le> 122))"

fun slug_chars :: "string \<Rightarrow> bool \<Rightarrow> string \<Rightarrow> string" where
  "slug_chars sub run [] = []"
| "slug_chars sub run (c # cs) =
     (if is_alnum c then hd (lower_ascii [c]) # slug_chars sub False cs
      else (if run then [] else sub) @ slug_chars sub True cs)"

definition spec_slugify :: "string \<Rightarrow> string option \<Rightarrow> string" where
  "spec_slugify text substitute =
     slug_chars (case substitute of None \<Rightarrow> ''-'' | Some s \<Rightarrow> s) False text"

text \<open>
  Modelled from the spec: the helper \<^verbatim>\<open>ocd_type_id\<close> of \<^verbatim>\<open>openelex.lib.text\<close>.
  The specification gives one value of it, \<^verbatim>\<open>leon\<close> for the county \<^verbatim>\<open>Leon\<close>: the
  text in lower case.
\<close>

definition spec_ocd_type_id :: "string \<Rightarrow> string" where
  "spec_ocd_type_id text = lower_ascii text"

text \<open>
  Modelled from the spec: the properties \<^verbatim>\<open>contest_slug\<close> and \<^verbatim>\<open>candidate_slug\<close> of
  \<^verbatim>\<open>RawResult\<close> (\<^verbatim>\<open>openelex.models\<close>), which the specification derives from
  the office name and from the candidate's name by the slugify rule.
\<close>

definition str_of :: "val option \<Rightarrow> string" where
  "str_of v = (case v of Some (Str s) \<Rightarrow> s | _ \<Rightarrow> [])"

definition spec_contest_slug :: "rawresult \<Rightarrow> string" where
  "spec_contest_slug res = spec_slugify (str_of (res ''office'')) None"

definition spec_candidate_slug :: "rawresult \<Rightarrow> string" where
  "spec_candidate_slug res =
     (case res ''full_name'' of
        Some (Str n) \<Rightarrow> spec_slugify n None
      | _ \<Rightarrow> spec_slugify
               (str_of (res ''given_name'') @ '' '' @ str_of (res ''family_name'')) None)"

text \<open>
  An environment for concrete runs: two entries of the jurisdiction list carry the
  name of Leon County, and the common context holds a reporting level of its own.
\<close>

definition example_env :: env where
  "example_env = \<lparr>
     slugify = spec_slugify,
     ocd_type_id = spec_ocd_type_id,
     contest_slug = spec_contest_slug,
     candidate_slug = spec_candidate_slug,
     jurisdictions = [
       \<lparr>county = ''Leon County'', ocd_id = ''ocd-division/country:us/state:fl/county:leon''\<rparr>,
       \<lparr>county = ''LEON COUNTY'', ocd_id = ''ocd-division/country:us/state:fl/county:leon_2''\<rparr>,
       \<lparr>county = ''Duval County'', ocd_id = ''ocd-division/country:us/state:fl/county:duval''\<rparr>],
     election_kwargs = [''state'' \<mapsto> Str ''FL'', ''reporting_level'' \<mapsto> Str ''county''],
     mapping_ocd_id = ''ocd-division/country:us/state:fl''\<rparr>"

text \<open>A county-summary row and a precinct-detail row with the given fields.\<close>

definition county_row :: "string \<Rightarrow> string \<Rightarrow> string \<Rightarrow> string \<Rightarrow> row" where
  "county_row office juris cty votes = map_of [
     (''OfficeDesc'', office), (''Juris1num'', juris), (''CountyName'', cty),
     (''CanNameLast'', ''Scott''), (''CanNameFirst'', ''Rick''), (''CanNameMiddle'', []),
     (''PartyName'', ''Republican Party''), (''CanVotes'', votes)]"

definition precinct_row :: "string \<Rightarrow> string \<Rightarrow> string \<Rightarrow> string \<Rightarrow> string \<Rightarrow> row" where
  "precinct_row cty contest district candidate votes = map_of [
     (''county_name'', cty), (''precinct_id'', ''101''), (''polling_location'', ''Library''),
     (''contest_name'', contest), (''district'', district), (''candidate'', candidate),
     (''party'', ''REP''), (''votes'', votes)]"

section \<open>Basic facts\<close>

lemma bind_Inl [simp]: "bind (Inl e) f = Inl e"
  by (simp add: bind_def)

lemma bind_Inr [simp]: "bind (Inr x) f = f x"
  by (simp add: bind_def)

lemma bind_eq_Inr: "bind m f = Inr y \<longleftrightarrow> (\<exists>x. m = Inr x \<and> f x = Inr y)"
  by (cases m) simp_all

lemma field_eq_Inr: "field r k = Inr v \<longleftrightarrow> r k = Some v"
  by (simp add: field_def split: option.splits)

lemma field_Some [simp]: "r k = Some v \<Longrightarrow> field r k = Inr v"
  by (simp add: field_def)

lemma field_None [simp]: "r k = None \<Longrightarrow> field r k = Inl (KeyError k)"
  by (simp add: field_def)

lemma strip_literals:
  "strip ''Under Votes'' = ''Under Votes''"
  "strip ''Over Votes'' = ''Over Votes''"
  "strip ''Write-ins'' = ''Write-ins''"
  by (simp_all add: strip_def isspace_def code_point_def)

lemma build_candidate_Some:
  "r ''candidate'' = Some c \<Longrightarrow>
   PrecinctLoader_build_candidate_kwargs E r =
     Inr (if strip c \<in> {''UnderVotes'', ''OverVotes'', ''WriteinVotes''}
          then r(''candidate'' \<mapsto> candidate_name c) else r,
          [''full_name'' \<mapsto> Str (candidate_name c),
           ''name_slug'' \<mapsto> Str (slugify E (candidate_name c) (Some ''-''))])"
  by (simp add: PrecinctLoader_build_candidate_kwargs_def candidate_name_def
      strip_literals Let_def)

lemma build_candidate_Inr:
  assumes "PrecinctLoader_build_candidate_kwargs E r = Inr (r', ak)"
  obtains c where "r ''candidate'' = Some c"
    and "r' = (if strip c \<in> {''UnderVotes'', ''OverVotes'', ''WriteinVotes''}
               then r(''candidate'' \<mapsto> candidate_name c) else r)"
    and "ak = [''full_name'' \<mapsto> Str (candidate_name c),
               ''name_slug'' \<mapsto> Str (slugify E (candidate_name c) (Some ''-''))]"
proof (cases "r ''candidate''")
  case None
  with assms show ?thesis
    by (simp add: PrecinctLoader_build_candidate_kwargs_def)
next
  case (Some c)
  with assms that [of c] show ?thesis
    by (simp add: build_candidate_Some)
qed

lemma build_candidate_other:
  assumes "PrecinctLoader_build_candidate_kwargs E r = Inr (r', ak)"
    and "k \<noteq> ''candidate''"
  shows "r' k = r k"
  using assms by (elim build_candidate_Inr) simp

lemma county_ocd_id_cong:
  "r' ''county_name'' = r ''county_name'' \<Longrightarrow> county_ocd_id E r' = county_ocd_id E r"
  by (simp add: county_ocd_id_def field_def)

lemma bindE:
  assumes "bind m f = Inr y"
  obtains x where "m = Inr x" and "f x = Inr y"
  using assms by (cases m) simp_all

lemma prep_precinct_raw:
  "PrecinctLoader_prep_precinct_result E common r = Inr res \<Longrightarrow>
   \<exists>ck r' ak pid pl cid cn p v n.
    PrecinctLoader_build_contest_kwargs r = Inr ck \<and>
    PrecinctLoader_build_candidate_kwargs E r = Inr (r', ak) \<and>
    r' ''precinct_id'' = Some pid \<and> r' ''polling_location'' = Some pl \<and>
    county_ocd_id E r' = Inr cid \<and> r' ''county_name'' = Some cn \<and>
    r' ''party'' = Some p \<and> r' ''votes'' = Some v \<and> FlLoader_votes v = Inr n \<and>
    res = common ++ ck ++ ak ++
       [''reporting_level'' \<mapsto> Str ''precinct'',
        ''jurisdiction'' \<mapsto> Str (strip (pid @ '' '' @ pl)),
        ''parent_jurisdiction'' \<mapsto> Str cn,
        ''ocd_id'' \<mapsto> Str (cid @ ''/precinct:'' @ ocd_type_id E pid),
        ''party'' \<mapsto> Str (strip p),
        ''votes'' \<mapsto> Num n]"
  apply (simp only: PrecinctLoader_prep_precinct_result_def Let_def)
  apply (erule bindE)+
  apply (simp only: split_paired_all prod.case)
  apply (erule bindE)+
  apply (simp only: field_eq_Inr sum.inject)
  apply blast
  done

lemma build_contest_InrD:
  "PrecinctLoader_build_contest_kwargs r = Inr ck \<Longrightarrow>
   \<exists>c d. r ''contest_name'' = Some c \<and> r ''district'' = Some d \<and>
     ck = [''office'' \<mapsto> Str c, ''district'' \<mapsto> Str (strip d)]"
  apply (simp only: PrecinctLoader_build_contest_kwargs_def)
  apply (erule bindE)+
  apply (simp only: field_eq_Inr sum.inject)
  apply blast
  done

lemma prep_precinct_InrD:
  assumes "PrecinctLoader_prep_precinct_result E common r = Inr res"
  shows "\<exists>c d cand pid pl cid cn p v n.
    r ''contest_name'' = Some c \<and> r ''district'' = Some d \<and> r ''candidate'' = Some cand \<and>
    r ''precinct_id'' = Some pid \<and> r ''polling_location'' = Some pl \<and>
    county_ocd_id E r = Inr cid \<and> r ''county_name'' = Some cn \<and>
    r ''party'' = Some p \<and> r ''votes'' = Some v \<and> FlLoader_votes v = Inr n \<and>
    res = common ++ [''office'' \<mapsto> Str c, ''district'' \<mapsto> Str (strip d)] ++
       [''full_name'' \<mapsto> Str (candidate_name cand),
        ''name_slug'' \<mapsto> Str (slugify E (candidate_name cand) (Some ''-''))] ++
       [''reporting_level'' \<mapsto> Str ''precinct'',
        ''jurisdiction'' \<mapsto> Str (strip (pid @ '' '' @ pl)),
        ''parent_jurisdiction'' \<mapsto> Str cn,
        ''ocd_id'' \<mapsto> Str (cid @ ''/precinct:'' @ ocd_type_id E pid),
        ''party'' \<mapsto> Str (strip p),
        ''votes'' \<mapsto> Num n]"
proof -
  from prep_precinct_raw [OF assms] obtain ck r' ak pid pl cid cn p v n where
    ck: "PrecinctLoader_build_contest_kwargs r = Inr ck"
    and ak: "PrecinctLoader_build_candidate_kwargs E r = Inr (r', ak)"
    and raw: "r' ''precinct_id'' = Some pid" "r' ''polling_location'' = Some pl"
      "county_ocd_id E r' = Inr cid" "r' ''county_name'' = Some cn"
      "r' ''party'' = Some p" "r' ''votes'' = Some v"
    and n: "FlLoader_votes v = Inr n"
    and res: "res = common ++ ck ++ ak ++
       [''reporting_level'' \<mapsto> Str ''precinct'',
        ''jurisdiction'' \<mapsto> Str (strip (pid @ '' '' @ pl)),
        ''parent_jurisdiction'' \<mapsto> Str cn,
        ''ocd_id'' \<mapsto> Str (cid @ ''/precinct:'' @ ocd_type_id E pid),
        ''party'' \<mapsto> Str (strip p),
        ''votes'' \<mapsto> Num n]"
    by blast
  from build_contest_InrD [OF ck] obtain c d where
    c: "r ''contest_name'' = Some c" and d: "r ''district'' = Some d"
    and ck_eq: "ck = [''office'' \<mapsto> Str c, ''district'' \<mapsto> Str (strip d)]"
    by blast
  from ak obtain cand where cand: "r ''candidate'' = Some cand"
    and ak_eq: "ak = [''full_name'' \<mapsto> Str (candidate_name cand),
               ''name_slug'' \<mapsto> Str (slugify E (candidate_name cand) (Some ''-''))]"
    by (rule build_candidate_Inr)
  have same: "r' k = r k" if "k \<noteq> ''candidate''" for k
    using ak that by (rule build_candidate_other)
  have f: "r ''precinct_id'' = Some pid" "r ''polling_location'' = Some pl"
    "r ''county_name'' = Some cn" "r ''party'' = Some p" "r ''votes'' = Some v"
    using raw by (simp_all add: same [symmetric])
  have "county_ocd_id E r' = county_ocd_id E r"
    by (rule county_ocd_id_cong) (simp add: same)
  with raw have cid: "county_ocd_id E r = Inr cid"
    by simp
  from c d cand f cid n res [unfolded ck_eq ak_eq] show ?thesis
    by blast
qed

lemma list_all2_in_right:
  "list_all2 P xs ys \<Longrightarrow> y \<in> set ys \<Longrightarrow> \<exists>x \<in> set xs. P x y"
  by (induction rule: list_all2_induct) auto

lemma list_all2_in_left:
  "list_all2 P xs ys \<Longrightarrow> x \<in> set xs \<Longrightarrow> \<exists>y \<in> set ys. P x y"
  by (induction rule: list_all2_induct) auto

lemma PrecinctLoader_rows_Inr:
  "PrecinctLoader_rows E common rows acc = Inr results \<Longrightarrow>
   \<exists>new. results = acc @ new \<and>
     list_all2 (\<lambda>r res. PrecinctLoader_prep_precinct_result E common r = Inr res)
       (filter (\<lambda>r. PrecinctLoader_skip_row r = Inr False) rows) new"
proof (induction rows arbitrary: acc)
  case Nil
  then show ?case by simp
next
  case (Cons r rows)
  from Cons.prems obtain skip where skip: "PrecinctLoader_skip_row r = Inr skip"
    and rest: "(if skip then PrecinctLoader_rows E common rows acc
       else bind (PrecinctLoader_prep_precinct_result E common r) (\<lambda>result.
              PrecinctLoader_rows E common rows (acc @ [result]))) = Inr results"
    by (auto elim: bindE)
  show ?case
  proof (cases skip)
    case True
    with rest Cons.IH [of acc] skip show ?thesis by simp
  next
    case False
    with rest obtain res where res: "PrecinctLoader_prep_precinct_result E common r = Inr res"
      and tl: "PrecinctLoader_rows E common rows (acc @ [res]) = Inr results"
      by (auto elim: bindE)
    from Cons.IH [OF tl] obtain new where "results = (acc @ [res]) @ new"
      and "list_all2 (\<lambda>r res. PrecinctLoader_prep_precinct_result E common r = Inr res)
       (filter (\<lambda>r. PrecinctLoader_skip_row r = Inr False) rows) new"
      by blast
    with skip False res show ?thesis
      by (intro exI [of _ "res # new"]) simp
  qed
qed

lemma PrecinctLoader_rows_Inl:
  assumes "r \<in> set rows" and "PrecinctLoader_skip_row r = Inr False"
    and "PrecinctLoader_prep_precinct_result E common r = Inl e"
  shows "\<exists>e'. PrecinctLoader_rows E common rows acc = Inl e'"
proof (cases "PrecinctLoader_rows E common rows acc")
  case (Inl e')
  then show ?thesis by blast
next
  case (Inr results)
  from PrecinctLoader_rows_Inr [OF Inr] obtain new where
    "list_all2 (\<lambda>r res. PrecinctLoader_prep_precinct_result E common r = Inr res)
       (filter (\<lambda>r. PrecinctLoader_skip_row r = Inr False) rows) new"
    by blast
  moreover from assms have "r \<in> set (filter (\<lambda>r. PrecinctLoader_skip_row r = Inr False) rows)"
    by simp
  ultimately obtain res where "PrecinctLoader_prep_precinct_result E common r = Inr res"
    by (blast dest: list_all2_in_left)
  with assms show ?thesis by simp
qed

lemma PrecinctLoader_load_Inr:
  assumes "PrecinctLoader_load E rows st = (Inr (), st')"
  shows "\<exists>batch. st' = st @ [batch] \<and>
     list_all2 (\<lambda>r res. PrecinctLoader_prep_precinct_result E
         ((election_kwargs E)(''reporting_level'' \<mapsto> Str ''precinct'')) r = Inr res)
       (filter (\<lambda>r. PrecinctLoader_skip_row r = Inr False) rows) batch"
proof -
  from assms obtain batch where
    b: "PrecinctLoader_rows E ((election_kwargs E)(''reporting_level'' \<mapsto> Str ''precinct''))
          rows [] = Inr batch" and st': "st' = st @ [batch]"
    by (auto simp: PrecinctLoader_load_def Let_def split: sum.splits)
  from PrecinctLoader_rows_Inr [OF b] st' show ?thesis by simp
qed

lemma county_ocd_id_InrD:
  "county_ocd_id E r = Inr cid \<Longrightarrow>
   \<exists>cn c cs. r ''county_name'' = Some cn \<and> county_matches E cn = c # cs \<and> cid = ocd_id c"
  by (auto simp: county_ocd_id_def field_def split: if_splits option.splits list.splits)

lemma PrecinctLoader_batch:
  assumes "PrecinctLoader_load E rows st = (Inr (), st')"
  shows "\<exists>batch. st' = st @ [batch] \<and>
     (\<forall>res \<in> set batch. \<exists>r \<in> set rows. PrecinctLoader_skip_row r = Inr False \<and>
        PrecinctLoader_prep_precinct_result E
          ((election_kwargs E)(''reporting_level'' \<mapsto> Str ''precinct'')) r = Inr res)"
proof -
  from PrecinctLoader_load_Inr [OF assms] obtain batch where st': "st' = st @ [batch]"
    and all: "list_all2 (\<lambda>r res. PrecinctLoader_prep_precinct_result E
         ((election_kwargs E)(''reporting_level'' \<mapsto> Str ''precinct'')) r = Inr res)
       (filter (\<lambda>r. PrecinctLoader_skip_row r = Inr False) rows) batch"
    by blast
  have "\<exists>r \<in> set rows. PrecinctLoader_skip_row r = Inr False \<and>
        PrecinctLoader_prep_precinct_result E
          ((election_kwargs E)(''reporting_level'' \<mapsto> Str ''precinct'')) r = Inr res"
    if "res \<in> set batch" for res
    using list_all2_in_right [OF all that] by auto
  with st' show ?thesis by blast
qed

lemma trunc_of_int [simp]: "trunc_toward_zero (of_int k) = k"
  by (simp add: trunc_toward_zero_def)

lemma py_int_truncates: "py_int (Finite m e) = Inr (trunc_toward_zero (float_value m e))"
proof (cases "0 \<le> e")
  case True
  have "float_value m e = of_int (m * 2 ^ nat e)"
    using True by (simp add: float_value_def)
  then show ?thesis
    using True by (simp del: of_int_mult of_int_power)
next
  case False
  define k where "k = nat (- e)"
  have fv: "float_value m e = of_int m / of_int (2 ^ k)"
    using False by (simp add: float_value_def k_def)
  have pos: "(0::int) < 2 ^ k" by simp
  show ?thesis
  proof (cases "0 \<le> m")
    case True
    then have "0 \<le> float_value m e"
      unfolding fv by (simp add: zero_le_divide_iff)
    then have "trunc_toward_zero (float_value m e) = m div 2 ^ k"
      unfolding trunc_toward_zero_def fv by (simp only: if_True floor_divide_of_int_eq)
    moreover have "sgn m * (\<bar>m\<bar> div 2 ^ k) = m div 2 ^ k"
      using True by (cases "m = 0") (simp_all add: sgn_if)
    ultimately show ?thesis
      using False by (simp add: k_def)
  next
    case neg: False
    then have lt: "float_value m e < 0"
      unfolding fv by (simp add: divide_less_0_iff)
    have "\<lceil>float_value m e\<rceil> = - \<lfloor>of_int (- m) / of_int (2 ^ k) :: rat\<rfloor>"
      unfolding fv ceiling_def by simp
    also have "\<dots> = - ((- m) div 2 ^ k)"
      by (simp only: floor_divide_of_int_eq)
    finally have "trunc_toward_zero (float_value m e) = - ((- m) div 2 ^ k)"
      using lt by (simp add: trunc_toward_zero_def)
    moreover have "sgn m * (\<bar>m\<bar> div 2 ^ k) = - ((- m) div 2 ^ k)"
      using neg by (simp add: sgn_if)
    ultimately show ?thesis
      using False by (simp add: k_def)
  qed
qed

lemma py_float_error: "py_float raw = Inl e \<Longrightarrow> e = ValueError"
  by (auto simp: py_float_def parse_number_def parse_exponent_def bind_def Let_def
      split: if_splits prod.splits sum.splits list.splits)

lemma votes_cases:
  assumes "FlLoader_votes raw = Inr n"
  shows "(strip raw = [] \<longrightarrow> n = 0) \<and>
     (strip raw \<noteq> [] \<longrightarrow>
        (py_float raw = Inl ValueError \<longrightarrow> n = 0) \<and>
        (py_float raw = Inr NaN \<longrightarrow> n = 0) \<and>
        (\<forall>m e. py_float raw = Inr (Finite m e) \<longrightarrow> n = trunc_toward_zero (float_value m e)) \<and>
        py_float raw \<noteq> Inr PosInf \<and> py_float raw \<noteq> Inr NegInf)"
proof (cases "strip raw = []")
  case True
  with assms show ?thesis by (simp add: FlLoader_votes_def)
next
  case False
  show ?thesis
  proof (cases "py_float raw")
    case (Inl e)
    with assms False show ?thesis
      by (simp add: FlLoader_votes_def split: error.splits)
  next
    case (Inr f)
    with assms False show ?thesis
      by (cases f) (simp_all add: FlLoader_votes_def py_int_truncates del: py_int.simps(1))
  qed
qed

lemma load_collapse:
  "fst (PrecinctLoader_load E rows st) = Inr () \<Longrightarrow>
   PrecinctLoader_load E rows st = (Inr (), snd (PrecinctLoader_load E rows st))"
  by (metis prod.collapse)

lemma prep_collapse:
  "\<not> isl (PrecinctLoader_prep_precinct_result E c r) \<Longrightarrow>
   PrecinctLoader_prep_precinct_result E c r =
     Inr (projr (PrecinctLoader_prep_precinct_result E c r))"
  by simp

section \<open>Vote coercion is not total\<close>

text \<open>
  C9. The claim is that the vote coercion returns an integer for every raw string and
  never raises. \<^verbatim>\<open>FlLoader._votes\<close> catches \<^verbatim>\<open>ValueError\<close> only: on a string that
  \<^verbatim>\<open>float\<close> reads as an infinity, \<^verbatim>\<open>int\<close> raises \<^verbatim>\<open>OverflowError\<close>, which leaves
  the method.
\<close>

theorem votes_infinity_raises:
  "FlLoader_votes ''inf'' = Inl OverflowError \<and>
   FlLoader_votes '' -Infinity '' = Inl OverflowError"
  by code_simp

section \<open>Reporting level of precinct results\<close>

text \<open>
  C10. Every result of the precinct-detail loader carries the reporting level
  \<^verbatim>\<open>precinct\<close>, whatever its contest name and whatever reporting level the common
  context holds: the fields built for the row overwrite it. The first part is about
  one row and any common context, the second about the batch the loader inserts.
\<close>

theorem precinct_level_is_precinct:
  assumes "PrecinctLoader_prep_precinct_result E common r = Inr res"
    and "PrecinctLoader_load E rows st = (Inr (), st')"
  shows "res ''reporting_level'' = Some (Str ''precinct'') \<and>
     (\<exists>batch. st' = st @ [batch] \<and>
        list_all (\<lambda>x. x ''reporting_level'' = Some (Str ''precinct'')) batch)"
proof -
  have one: "x ''reporting_level'' = Some (Str ''precinct'')"
    if "PrecinctLoader_prep_precinct_result E c r' = Inr x" for c r' x
    using prep_precinct_InrD [OF that] by auto
  from PrecinctLoader_batch [OF assms(2)] obtain batch where "st' = st @ [batch]"
    and "\<forall>res \<in> set batch. \<exists>r \<in> set rows. PrecinctLoader_skip_row r = Inr False \<and>
        PrecinctLoader_prep_precinct_result E
          ((election_kwargs E)(''reporting_level'' \<mapsto> Str ''precinct'')) r = Inr res"
    by blast
  then have "st' = st @ [batch] \<and>
      list_all (\<lambda>x. x ''reporting_level'' = Some (Str ''precinct'')) batch"
    by (auto simp: list_all_iff dest: one)
  with one [OF assms(1)] show ?thesis by blast
qed

theorem precinct_level_is_precinct_witness:
  "election_kwargs example_env ''reporting_level'' = Some (Str ''county'') \<and>
   \<not> isl (PrecinctLoader_prep_precinct_result example_env (election_kwargs example_env)
      (precinct_row ''Leon'' ''U.S. President by Congressional District'' ''5'' ''Obama'' ''10'')) \<and>
   fst (PrecinctLoader_load example_env
      [precinct_row ''Leon'' ''U.S. President by Congressional District'' ''5'' ''Obama'' ''10''] [])
     = Inr () \<and>
   projr (PrecinctLoader_prep_precinct_result example_env (election_kwargs example_env)
      (precinct_row ''Leon'' ''U.S. President by Congressional District'' ''5'' ''Obama'' ''10''))
     ''reporting_level'' = Some (Str ''precinct'') \<and>
   list_all (\<lambda>x. x ''reporting_level'' = Some (Str ''precinct''))
     (concat (snd (PrecinctLoader_load example_env
      [precinct_row ''Leon'' ''U.S. President by Congressional District'' ''5'' ''Obama'' ''10''] [])))"
proof -
  let ?r = "precinct_row ''Leon'' ''U.S. President by Congressional District'' ''5'' ''Obama'' ''10''"
  have c: "election_kwargs example_env ''reporting_level'' = Some (Str ''county'')"
    by code_simp
  have a: "\<not> isl (PrecinctLoader_prep_precinct_result example_env (election_kwargs example_env) ?r)"
    by code_simp
  have b: "fst (PrecinctLoader_load example_env [?r] []) = Inr ()"
    by code_simp
  from a have a': "PrecinctLoader_prep_precinct_result example_env (election_kwargs example_env) ?r
      = Inr (projr (PrecinctLoader_prep_precinct_result example_env (election_kwargs example_env) ?r))"
    by simp
  from precinct_level_is_precinct [OF a' load_collapse [OF b]] a b c show ?thesis
    by auto
qed

section \<open>Candidate names of precinct results\<close>

text \<open>
  C8. For every precinct-detail row that produces a result, the full name is the raw
  candidate value after the substitution of \<^verbatim>\<open>UnderVotes\<close>, \<^verbatim>\<open>OverVotes\<close> and
  \<^verbatim>\<open>WriteinVotes\<close> (compared trimmed; any other value is passed through trimmed),
  and the name slug is \<^verbatim>\<open>slugify\<close> of that full name with the hyphen as substitute.
\<close>

theorem precinct_candidate_substitution:
  assumes "PrecinctLoader_load E rows st = (Inr (), st')"
  shows "\<exists>batch. st' = st @ [batch] \<and>
     (\<forall>res \<in> set batch. \<exists>r \<in> set rows. \<exists>raw. r ''candidate'' = Some raw \<and>
        res ''full_name'' = Some (Str (candidate_name raw)) \<and>
        res ''name_slug'' = Some (Str (slugify E (candidate_name raw) (Some ''-''))))"
proof -
  from PrecinctLoader_batch [OF assms] obtain batch where st': "st' = st @ [batch]"
    and all: "\<forall>res \<in> set batch. \<exists>r \<in> set rows. PrecinctLoader_skip_row r = Inr False \<and>
        PrecinctLoader_prep_precinct_result E
          ((election_kwargs E)(''reporting_level'' \<mapsto> Str ''precinct'')) r = Inr res"
    by blast
  have "\<exists>r \<in> set rows. \<exists>raw. r ''candidate'' = Some raw \<and>
        res ''full_name'' = Some (Str (candidate_name raw)) \<and>
        res ''name_slug'' = Some (Str (slugify E (candidate_name raw) (Some ''-'')))"
    if "res \<in> set batch" for res
  proof -
    from all that obtain r where r: "r \<in> set rows"
      and p: "PrecinctLoader_prep_precinct_result E
          ((election_kwargs E)(''reporting_level'' \<mapsto> Str ''precinct'')) r = Inr res"
      by blast
    from prep_precinct_InrD [OF p] obtain raw where "r ''candidate'' = Some raw"
      "res ''full_name'' = Some (Str (candidate_name raw))"
      "res ''name_slug'' = Some (Str (slugify E (candidate_name raw) (Some ''-'')))"
      by auto
    with r show ?thesis by blast
  qed
  with st' show ?thesis by blast
qed

theorem precinct_candidate_substitution_witness:
  "fst (PrecinctLoader_load example_env
      [precinct_row ''Leon'' ''Governor'' [] ''UnderVotes'' ''3'',
       precinct_row ''Leon'' ''Governor'' [] ''OverVotes'' ''0'',
       precinct_row ''Leon'' ''Governor'' [] ''WriteinVotes'' ''1'',
       precinct_row ''Leon'' ''Governor'' [] '' Scott / Carroll '' ''250''] []) = Inr () \<and>
   map (\<lambda>res. (res ''full_name'', res ''name_slug''))
     (concat (snd (PrecinctLoader_load example_env
      [precinct_row ''Leon'' ''Governor'' [] ''UnderVotes'' ''3'',
       precinct_row ''Leon'' ''Governor'' [] ''OverVotes'' ''0'',
       precinct_row ''Leon'' ''Governor'' [] ''WriteinVotes'' ''1'',
       precinct_row ''Leon'' ''Governor'' [] '' Scott / Carroll '' ''250''] []))) =
     [(Some (Str ''Under Votes''), Some (Str ''under-votes'')),
      (Some (Str ''Over Votes''), Some (Str ''over-votes'')),
      (Some (Str ''Write-ins''), Some (Str ''write-ins'')),
      (Some (Str ''Scott / Carroll''), Some (Str ''scott-carroll''))] \<and>
   (\<exists>batch. snd (PrecinctLoader_load example_env
      [precinct_row ''Leon'' ''Governor'' [] ''UnderVotes'' ''3'',
       precinct_row ''Leon'' ''Governor'' [] ''OverVotes'' ''0'',
       precinct_row ''Leon'' ''Governor'' [] ''WriteinVotes'' ''1'',
       precinct_row ''Leon'' ''Governor'' [] '' Scott / Carroll '' ''250''] []) = [batch] \<and>
     list_all (\<lambda>res. list_ex (\<lambda>r. res ''full_name'' =
          Some (Str (candidate_name (the (r ''candidate'')))))
        [precinct_row ''Leon'' ''Governor'' [] ''UnderVotes'' ''3'',
       precinct_row ''Leon'' ''Governor'' [] ''OverVotes'' ''0'',
       precinct_row ''Leon'' ''Governor'' [] ''WriteinVotes'' ''1'',
       precinct_row ''Leon'' ''Governor'' [] '' Scott / Carroll '' ''250'']) batch)"
proof -
  let ?rows = "[precinct_row ''Leon'' ''Governor'' [] ''UnderVotes'' ''3'',
       precinct_row ''Leon'' ''Governor'' [] ''OverVotes'' ''0'',
       precinct_row ''Leon'' ''Governor'' [] ''WriteinVotes'' ''1'',
       precinct_row ''Leon'' ''Governor'' [] '' Scott / Carroll '' ''250'']"
  have a: "fst (PrecinctLoader_load example_env ?rows []) = Inr ()"
    by code_simp
  have b: "map (\<lambda>res. (res ''full_name'', res ''name_slug''))
     (concat (snd (PrecinctLoader_load example_env ?rows []))) =
     [(Some (Str ''Under Votes''), Some (Str ''under-votes'')),
      (Some (Str ''Over Votes''), Some (Str ''over-votes'')),
      (Some (Str ''Write-ins''), Some (Str ''write-ins'')),
      (Some (Str ''Scott / Carroll''), Some (Str ''scott-carroll''))]"
    by code_simp
  from precinct_candidate_substitution [OF load_collapse [OF a]]
  obtain batch where s: "snd (PrecinctLoader_load example_env ?rows []) = [batch]"
    and all: "\<forall>res \<in> set batch. \<exists>r \<in> set ?rows. \<exists>raw. r ''candidate'' = Some raw \<and>
        res ''full_name'' = Some (Str (candidate_name raw)) \<and>
        res ''name_slug'' = Some (Str (slugify example_env (candidate_name raw) (Some ''-'')))"
    by auto
  have "list_all (\<lambda>res. list_ex (\<lambda>r. res ''full_name'' =
          Some (Str (candidate_name (the (r ''candidate''))))) ?rows) batch"
    unfolding list_all_iff list_ex_iff
  proof
    fix res assume "res \<in> set batch"
    with all obtain r raw where "r \<in> set ?rows" "r ''candidate'' = Some raw"
      "res ''full_name'' = Some (Str (candidate_name raw))"
      by blast
    then show "\<exists>r \<in> set ?rows. res ''full_name'' =
          Some (Str (candidate_name (the (r ''candidate''))))"
      by force
  qed
  with a b s show ?thesis by blast
qed

lemma batch_votes_numeric:
  assumes "\<exists>batch. st' = [] @ [batch] \<and>
     (\<forall>res \<in> set batch. \<exists>r \<in> set rows. \<exists>raw n.
        r ''votes'' = Some raw \<and> res ''votes'' = Some (Num n) \<and> Q raw n)"
  shows "\<exists>batch. st' = [batch] \<and> list_all (\<lambda>res. \<exists>n. res ''votes'' = Some (Num n)) batch"
proof -
  from assms obtain batch where "st' = [batch]"
    and "\<forall>res \<in> set batch. \<exists>r \<in> set rows. \<exists>raw n.
        r ''votes'' = Some raw \<and> res ''votes'' = Some (Num n) \<and> Q raw n"
    by auto
  then show ?thesis
    unfolding list_all_iff by blast
qed

lemma prep_precinct_no_match:
  assumes "r ''county_name'' = Some cn" and "county_matches E cn = []"
  shows "\<exists>e. PrecinctLoader_prep_precinct_result E common r = Inl e"
proof (cases "PrecinctLoader_prep_precinct_result E common r")
  case (Inl e)
  then show ?thesis by blast
next
  case (Inr res)
  from prep_precinct_InrD [OF Inr] obtain cid where "county_ocd_id E r = Inr cid"
    by blast
  from county_ocd_id_InrD [OF this] assms show ?thesis
    by auto
qed

section \<open>Votes of precinct results\<close>

text \<open>
  C2, as amended. The claim speaks of both loaders and of a non-negative count. The
  county-summary loader stores the trimmed \<^verbatim>\<open>CanVotes\<close> text and never calls
  \<^verbatim>\<open>_votes\<close>, and \<^verbatim>\<open>_votes\<close> keeps the sign of a negative literal. What holds: for
  every result of the precinct-detail loader the votes field is an integer, 0 when
  the raw value is blank, fails to parse as a float or parses to NaN, and otherwise
  the float value of the raw text truncated toward zero; a load that ends with an
  insert has met no infinite value.
\<close>

theorem precinct_votes_coerced:
  assumes "PrecinctLoader_load E rows st = (Inr (), st')"
  shows "\<exists>batch. st' = st @ [batch] \<and>
     (\<forall>res \<in> set batch. \<exists>r \<in> set rows. \<exists>raw n.
        r ''votes'' = Some raw \<and> res ''votes'' = Some (Num n) \<and>
        (strip raw = [] \<longrightarrow> n = 0) \<and>
        (strip raw \<noteq> [] \<longrightarrow>
           (py_float raw = Inl ValueError \<longrightarrow> n = 0) \<and>
           (py_float raw = Inr NaN \<longrightarrow> n = 0) \<and>
           (\<forall>m e. py_float raw = Inr (Finite m e) \<longrightarrow>
              n = trunc_toward_zero (float_value m e)) \<and>
           py_float raw \<noteq> Inr PosInf \<and> py_float raw \<noteq> Inr NegInf))"
proof -
  from PrecinctLoader_batch [OF assms] obtain batch where st': "st' = st @ [batch]"
    and all: "\<forall>res \<in> set batch. \<exists>r \<in> set rows. PrecinctLoader_skip_row r = Inr False \<and>
        PrecinctLoader_prep_precinct_result E
          ((election_kwargs E)(''reporting_level'' \<mapsto> Str ''precinct'')) r = Inr res"
    by blast
  have "\<exists>r \<in> set rows. \<exists>raw n.
        r ''votes'' = Some raw \<and> res ''votes'' = Some (Num n) \<and>
        (strip raw = [] \<longrightarrow> n = 0) \<and>
        (strip raw \<noteq> [] \<longrightarrow>
           (py_float raw = Inl ValueError \<longrightarrow> n = 0) \<and>
           (py_float raw = Inr NaN \<longrightarrow> n = 0) \<and>
           (\<forall>m e. py_float raw = Inr (Finite m e) \<longrightarrow>
              n = trunc_toward_zero (float_value m e)) \<and>
           py_float raw \<noteq> Inr PosInf \<and> py_float raw \<noteq> Inr NegInf)"
    if "res \<in> set batch" for res
  proof -
    from all that obtain r where r: "r \<in> set rows"
      and p: "PrecinctLoader_prep_precinct_result E
          ((election_kwargs E)(''reporting_level'' \<mapsto> Str ''precinct'')) r = Inr res"
      by blast
    from prep_precinct_InrD [OF p] obtain raw n where raw: "r ''votes'' = Some raw"
      and n: "FlLoader_votes raw = Inr n" and v: "res ''votes'' = Some (Num n)"
      by auto
    from r raw v votes_cases [OF n] show ?thesis by blast
  qed
  with st' show ?thesis by blast
qed

theorem precinct_votes_coerced_witness:
  "fst (PrecinctLoader_load example_env
      [precinct_row ''Leon'' ''Governor'' [] ''Scott'' ''123.9'',
       precinct_row ''Leon'' ''Governor'' [] ''Sink'' ''  '',
       precinct_row ''Leon'' ''Governor'' [] ''Allen'' ''n/a'',
       precinct_row ''Leon'' ''Governor'' [] ''Khavari'' ''-5'',
       precinct_row ''Leon'' ''Governor'' [] ''Reed'' ''NaN''] []) = Inr () \<and>
   map (\<lambda>res. res ''votes'')
     (concat (snd (PrecinctLoader_load example_env
      [precinct_row ''Leon'' ''Governor'' [] ''Scott'' ''123.9'',
       precinct_row ''Leon'' ''Governor'' [] ''Sink'' ''  '',
       precinct_row ''Leon'' ''Governor'' [] ''Allen'' ''n/a'',
       precinct_row ''Leon'' ''Governor'' [] ''Khavari'' ''-5'',
       precinct_row ''Leon'' ''Governor'' [] ''Reed'' ''NaN''] []))) =
     [Some (Num 123), Some (Num 0), Some (Num 0), Some (Num (- 5)), Some (Num 0)] \<and>
   (\<exists>batch. snd (PrecinctLoader_load example_env
      [precinct_row ''Leon'' ''Governor'' [] ''Scott'' ''123.9'',
       precinct_row ''Leon'' ''Governor'' [] ''Sink'' ''  '',
       precinct_row ''Leon'' ''Governor'' [] ''Allen'' ''n/a'',
       precinct_row ''Leon'' ''Governor'' [] ''Khavari'' ''-5'',
       precinct_row ''Leon'' ''Governor'' [] ''Reed'' ''NaN''] []) = [batch] \<and>
      list_all (\<lambda>res. \<exists>n. res ''votes'' = Some (Num n)) batch)"
proof -
  let ?rows = "[precinct_row ''Leon'' ''Governor'' [] ''Scott'' ''123.9'',
       precinct_row ''Leon'' ''Governor'' [] ''Sink'' ''  '',
       precinct_row ''Leon'' ''Governor'' [] ''Allen'' ''n/a'',
       precinct_row ''Leon'' ''Governor'' [] ''Khavari'' ''-5'',
       precinct_row ''Leon'' ''Governor'' [] ''Reed'' ''NaN'']"
  have a: "fst (PrecinctLoader_load example_env ?rows []) = Inr ()"
    by code_simp
  have b: "map (\<lambda>res. res ''votes'')
     (concat (snd (PrecinctLoader_load example_env ?rows []))) =
     [Some (Num 123), Some (Num 0), Some (Num 0), Some (Num (- 5)), Some (Num 0)]"
    by code_simp
  have c: "\<exists>batch. snd (PrecinctLoader_load example_env ?rows []) = [batch] \<and>
      list_all (\<lambda>res. \<exists>n. res ''votes'' = Some (Num n)) batch"
    by (rule batch_votes_numeric) (rule precinct_votes_coerced [OF load_collapse [OF a]])
  from a b c show ?thesis
    by (intro conjI)
qed

text \<open>
  The claim as stated fails: the county-summary loader hands on the raw text of a
  vote count, and the precinct-detail loader yields \<open>- 5\<close> on the raw value
  \<^verbatim>\<open>-5\<close>.
\<close>

theorem votes_claim_counterexample:
  "map (\<lambda>res. res ''votes'')
     (concat (snd (FlLoader_load example_env
        [county_row ''Governor'' [] ''Leon'' ''n/a'',
         county_row ''Attorney General'' [] ''Leon'' ''123.9''] []))) =
     [Some (Str ''n/a''), Some (Str ''123.9'')] \<and>
   map (\<lambda>res. res ''votes'')
     (concat (snd (PrecinctLoader_load example_env
        [precinct_row ''Leon'' ''Governor'' [] ''Scott'' ''-5''] []))) = [Some (Num (- 5))]"
  by code_simp

section \<open>Resolution of the county of a precinct row\<close>

text \<open>
  C3, as amended. For a precinct-detail row that is not skipped and whose county
  name, upper-cased and followed by \<^verbatim>\<open>' COUNTY'\<close>, matches no entry of the
  jurisdiction list, the load of the file ends with an error and the store is left
  as it was. A row whose name matches several entries is not an error: the result
  is built with the identifier of the first matching entry.
\<close>

theorem precinct_county_resolution:
  assumes "r \<in> set rows" and "PrecinctLoader_skip_row r = Inr False"
    and "r ''county_name'' = Some cn"
  shows "(county_matches E cn = [] \<longrightarrow>
            (\<exists>e. PrecinctLoader_load E rows st = (Inl e, st))) \<and>
         (\<forall>res. PrecinctLoader_prep_precinct_result E common r = Inr res \<longrightarrow>
            (\<exists>c cs pid. county_matches E cn = c # cs \<and> r ''precinct_id'' = Some pid \<and>
               res ''ocd_id'' = Some (Str (ocd_id c @ ''/precinct:'' @ ocd_type_id E pid))))"
proof (intro conjI impI allI)
  assume none: "county_matches E cn = []"
  let ?common = "(election_kwargs E)(''reporting_level'' \<mapsto> Str ''precinct'')"
  from assms(3) none obtain e
    where "PrecinctLoader_prep_precinct_result E ?common r = Inl e"
    using prep_precinct_no_match [of r cn E ?common] by blast
  from PrecinctLoader_rows_Inl [OF assms(1,2) this] obtain e'
    where "PrecinctLoader_rows E ?common rows [] = Inl e'"
    by blast
  then show "\<exists>e. PrecinctLoader_load E rows st = (Inl e, st)"
    by (simp add: PrecinctLoader_load_def)
next
  fix res
  assume p: "PrecinctLoader_prep_precinct_result E common r = Inr res"
  from prep_precinct_InrD [OF p] obtain pid cid where pid: "r ''precinct_id'' = Some pid"
    and cid: "county_ocd_id E r = Inr cid"
    and res: "res ''ocd_id'' = Some (Str (cid @ ''/precinct:'' @ ocd_type_id E pid))"
    by auto
  from county_ocd_id_InrD [OF cid] assms(3) obtain c cs
    where "county_matches E cn = c # cs" "cid = ocd_id c"
    by auto
  with pid res show "\<exists>c cs pid. county_matches E cn = c # cs \<and> r ''precinct_id'' = Some pid \<and>
      res ''ocd_id'' = Some (Str (ocd_id c @ ''/precinct:'' @ ocd_type_id E pid))"
    by blast
qed

theorem precinct_county_resolution_witness:
  "county_matches example_env ''Alachua'' = [] \<and>
   (\<exists>e. PrecinctLoader_load example_env
      [precinct_row ''Leon'' ''Governor'' [] ''Scott'' ''10'',
       precinct_row ''Alachua'' ''Governor'' [] ''Scott'' ''20''] [[Map.empty]]
     = (Inl e, [[Map.empty]])) \<and>
   map ocd_id (county_matches example_env ''Leon'') =
     [''ocd-division/country:us/state:fl/county:leon'',
      ''ocd-division/country:us/state:fl/county:leon_2''] \<and>
   projr (PrecinctLoader_prep_precinct_result example_env Map.empty
      (precinct_row ''Leon'' ''Governor'' [] ''Scott'' ''10'')) ''ocd_id'' =
     Some (Str ''ocd-division/country:us/state:fl/county:leon/precinct:101'')"
proof -
  let ?r1 = "precinct_row ''Leon'' ''Governor'' [] ''Scott'' ''10''"
  let ?r2 = "precinct_row ''Alachua'' ''Governor'' [] ''Scott'' ''20''"
  have in2: "?r2 \<in> set [?r1, ?r2]" by simp
  have skip2: "PrecinctLoader_skip_row ?r2 = Inr False" by code_simp
  have cn2: "?r2 ''county_name'' = Some ''Alachua''" by code_simp
  have none: "county_matches example_env ''Alachua'' = []" by code_simp
  have two: "map ocd_id (county_matches example_env ''Leon'') =
     [''ocd-division/country:us/state:fl/county:leon'',
      ''ocd-division/country:us/state:fl/county:leon_2'']" by code_simp
  have id1: "projr (PrecinctLoader_prep_precinct_result example_env Map.empty ?r1) ''ocd_id'' =
     Some (Str ''ocd-division/country:us/state:fl/county:leon/precinct:101'')"
    by code_simp
  from precinct_county_resolution [OF in2 skip2 cn2, of example_env "[[Map.empty]]"] none
  have "\<exists>e. PrecinctLoader_load example_env [?r1, ?r2] [[Map.empty]] = (Inl e, [[Map.empty]])"
    by blast
  with none two id1 show ?thesis
    by (intro conjI)
qed

text \<open>
  The claim as stated fails on its second part: with two entries matching
  \<^verbatim>\<open>LEON COUNTY\<close> the load succeeds and the result carries the first entry's
  identifier.
\<close>

theorem ambiguous_county_counterexample:
  "length (county_matches example_env ''Leon'') = 2 \<and>
   fst (PrecinctLoader_load example_env
      [precinct_row ''Leon'' ''Governor'' [] ''Scott'' ''10''] []) = Inr () \<and>
   map (\<lambda>res. res ''ocd_id'') (concat (snd (PrecinctLoader_load example_env
      [precinct_row ''Leon'' ''Governor'' [] ''Scott'' ''10''] []))) =
     [Some (Str ''ocd-division/country:us/state:fl/county:leon/precinct:101'')]"
  by code_simp

section \<open>Facts about the county-summary loader\<close>

lemma county_contest_InrD:
  "FlLoader_build_contest_kwargs r = Inr ck \<Longrightarrow>
   \<exists>od. r ''OfficeDesc'' = Some od \<and>
     (if strip od \<in> district_offices
      then \<exists>j. r ''Juris1num'' = Some j \<and>
             ck = [''office'' \<mapsto> Str (strip od), ''district'' \<mapsto> Str (strip j)]
      else ck = [''office'' \<mapsto> Str (strip od)])"
  apply (simp only: FlLoader_build_contest_kwargs_def Let_def)
  apply (erule bindE)
  apply (simp only: field_eq_Inr split: if_splits)
   apply (erule bindE)
   apply (simp only: field_eq_Inr sum.inject)
   apply auto
  done

lemma county_candidate_InrD:
  "FlLoader_build_candidate_kwargs r = Inr ak \<Longrightarrow>
   \<exists>l f m. r ''CanNameLast'' = Some l \<and> r ''CanNameFirst'' = Some f \<and>
     r ''CanNameMiddle'' = Some m \<and>
     ak = [''family_name'' \<mapsto> Str (strip l), ''given_name'' \<mapsto> Str (strip f),
           ''additional_name'' \<mapsto> Str (strip m)]"
  apply (simp only: FlLoader_build_candidate_kwargs_def)
  apply (erule bindE)+
  apply (simp only: field_eq_Inr sum.inject)
  apply blast
  done

lemma county_result_InrD:
  "FlLoader_build_result_kwargs E r = Inr rk \<Longrightarrow>
   \<exists>c p v od. r ''CountyName'' = Some c \<and> r ''PartyName'' = Some p \<and>
     r ''CanVotes'' = Some v \<and> r ''OfficeDesc'' = Some od \<and>
     (if strip od = ''U.S. President by Congressional District''
      then \<exists>j. r ''Juris1num'' = Some j \<and>
        rk = [''party'' \<mapsto> Str (strip p), ''jurisdiction'' \<mapsto> Str (strip c),
              ''ocd_id'' \<mapsto> Str (mapping_ocd_id E @ ''/county:'' @ ocd_type_id E (strip c)),
              ''votes'' \<mapsto> Str (strip v),
              ''reporting_level'' \<mapsto> Str ''congressional_district_by_county'',
              ''reporting_district'' \<mapsto> Str (strip j)]
      else
        rk = [''party'' \<mapsto> Str (strip p), ''jurisdiction'' \<mapsto> Str (strip c),
              ''ocd_id'' \<mapsto> Str (mapping_ocd_id E @ ''/county:'' @ ocd_type_id E (strip c)),
              ''votes'' \<mapsto> Str (strip v),
              ''reporting_level'' \<mapsto> Str ''county''])"
  apply (simp only: FlLoader_build_result_kwargs_def Let_def)
  apply (erule bindE)+
  apply (simp only: field_eq_Inr split: if_splits)
   apply (erule bindE)
   apply (simp only: field_eq_Inr sum.inject)
   apply auto
  done

lemma county_prep_InrD:
  assumes "FlLoader_prep_result E r = Inr res"
  shows "\<exists>od c p v. r ''OfficeDesc'' = Some od \<and> r ''CountyName'' = Some c \<and>
     r ''PartyName'' = Some p \<and> r ''CanVotes'' = Some v \<and>
     res ''office'' = Some (Str (strip od)) \<and>
     res ''votes'' = Some (Str (strip v)) \<and>
     res ''jurisdiction'' = Some (Str (strip c)) \<and>
     (if strip od \<in> district_offices
      then \<exists>j. r ''Juris1num'' = Some j \<and> res ''district'' = Some (Str (strip j))
      else res ''district'' = election_kwargs E ''district'') \<and>
     (if strip od = ''U.S. President by Congressional District''
      then res ''reporting_level'' = Some (Str ''congressional_district_by_county'') \<and>
        (\<exists>j. r ''Juris1num'' = Some j \<and> res ''reporting_district'' = Some (Str (strip j)))
      else res ''reporting_level'' = Some (Str ''county'') \<and>
        res ''reporting_district'' = election_kwargs E ''reporting_district'')"
proof -
  from assms obtain ck ak rk where ck: "FlLoader_build_contest_kwargs r = Inr ck"
    and ak: "FlLoader_build_candidate_kwargs r = Inr ak"
    and rk: "FlLoader_build_result_kwargs E r = Inr rk"
    and res: "res = election_kwargs E ++ ck ++ ak ++ rk"
    unfolding FlLoader_prep_result_def by (auto elim!: bindE)
  from county_contest_InrD [OF ck] obtain od where od: "r ''OfficeDesc'' = Some od"
    and ck': "if strip od \<in> district_offices
      then \<exists>j. r ''Juris1num'' = Some j \<and>
             ck = [''office'' \<mapsto> Str (strip od), ''district'' \<mapsto> Str (strip j)]
      else ck = [''office'' \<mapsto> Str (strip od)]"
    by blast
  from county_candidate_InrD [OF ak] obtain l f m where
    ak': "ak = [''family_name'' \<mapsto> Str (strip l), ''given_name'' \<mapsto> Str (strip f),
           ''additional_name'' \<mapsto> Str (strip m)]"
    by blast
  from county_result_InrD [OF rk] od obtain c p v where c: "r ''CountyName'' = Some c"
    and p: "r ''PartyName'' = Some p" and v: "r ''CanVotes'' = Some v"
    and rk': "if strip od = ''U.S. President by Congressional District''
      then \<exists>j. r ''Juris1num'' = Some j \<and>
        rk = [''party'' \<mapsto> Str (strip p), ''jurisdiction'' \<mapsto> Str (strip c),
              ''ocd_id'' \<mapsto> Str (mapping_ocd_id E @ ''/county:'' @ ocd_type_id E (strip c)),
              ''votes'' \<mapsto> Str (strip v),
              ''reporting_level'' \<mapsto> Str ''congressional_district_by_county'',
              ''reporting_district'' \<mapsto> Str (strip j)]
      else
        rk = [''party'' \<mapsto> Str (strip p), ''jurisdiction'' \<mapsto> Str (strip c),
              ''ocd_id'' \<mapsto> Str (mapping_ocd_id E @ ''/county:'' @ ocd_type_id E (strip c)),
              ''votes'' \<mapsto> Str (strip v),
              ''reporting_level'' \<mapsto> Str ''county'']"
    by auto
  have office: "res ''office'' = Some (Str (strip od))"
    using ck' rk' unfolding res ak' by (auto split: if_splits simp: map_add_def)
  have votes: "res ''votes'' = Some (Str (strip v))"
    using rk' unfolding res by (auto split: if_splits simp: map_add_def)
  have jur: "res ''jurisdiction'' = Some (Str (strip c))"
    using rk' unfolding res by (auto split: if_splits simp: map_add_def)
  have district: "if strip od \<in> district_offices
      then \<exists>j. r ''Juris1num'' = Some j \<and> res ''district'' = Some (Str (strip j))
      else res ''district'' = election_kwargs E ''district''"
    using ck' rk' unfolding res ak' by (auto split: if_splits simp: map_add_def)
  have level: "if strip od = ''U.S. President by Congressional District''
      then res ''reporting_level'' = Some (Str ''congressional_district_by_county'') \<and>
        (\<exists>j. r ''Juris1num'' = Some j \<and> res ''reporting_district'' = Some (Str (strip j)))
      else res ''reporting_level'' = Some (Str ''county'') \<and>
        res ''reporting_district'' = election_kwargs E ''reporting_district''"
    using ck' rk' unfolding res ak' by (auto split: if_splits simp: map_add_def)
  from od c p v office votes jur district level show ?thesis
    by blast
qed

lemma keys_first_seen:
  "key ` set (first_seen key S xs) = key ` set xs - S"
  by (induction xs arbitrary: S) auto

lemma set_first_seen: "set (first_seen key S xs) \<subseteq> set xs"
  by (induction xs arbitrary: S) auto

lemma distinct_first_seen: "distinct (map key (first_seen key S xs))"
proof (induction xs arbitrary: S)
  case Nil
  show ?case by simp
next
  case (Cons x xs)
  have "key x \<notin> key ` set (first_seen key (insert (key x) S) xs)"
    unfolding keys_first_seen by simp
  with Cons show ?case by simp
qed

lemma find_first_seen:
  "x \<in> set (first_seen key S xs) \<Longrightarrow> find (\<lambda>c. key c = key x) xs = Some x"
proof (induction xs arbitrary: S)
  case Nil
  then show ?case by simp
next
  case (Cons y ys)
  show ?case
  proof (cases "key y \<in> S")
    case True
    with Cons.prems have x: "x \<in> set (first_seen key S ys)" by simp
    then have "key x \<in> key ` set (first_seen key S ys)" by blast
    then have "key x \<notin> S" unfolding keys_first_seen by simp
    with True have "key y \<noteq> key x" by auto
    with Cons.IH [OF x] show ?thesis by simp
  next
    case False
    show ?thesis
    proof (cases "x = y")
      case True
      then show ?thesis by simp
    next
      case ne: False
      with False Cons.prems have x: "x \<in> set (first_seen key (insert (key y) S) ys)"
        by simp
      then have "key x \<in> key ` set (first_seen key (insert (key y) S) ys)" by blast
      then have "key x \<noteq> key y" unfolding keys_first_seen by simp
      with Cons.IH [OF x] show ?thesis by simp
    qed
  qed
qed

lemma FlLoader_rows_Inr:
  "FlLoader_rows E rows acc seen = Inr results \<Longrightarrow>
   \<exists>cands. list_all2 (\<lambda>r c. FlLoader_prep_result E r = Inr c)
       (filter (\<lambda>r. FlLoader_skip_row r = Inr False) rows) cands \<and>
     (\<forall>c \<in> set cands. \<exists>k. FlLoader_key E c = Inr k) \<and>
     results = acc @ first_seen (FlLoader_key E) (Inr ` seen) cands"
proof (induction rows arbitrary: acc seen)
  case Nil
  then show ?case by simp
next
  case (Cons r rows)
  from Cons.prems obtain skip where skip: "FlLoader_skip_row r = Inr skip"
    and rest: "(if skip then FlLoader_rows E rows acc seen
       else bind (FlLoader_prep_result E r) (\<lambda>result.
            bind (FlLoader_key E result) (\<lambda>key.
              if key \<notin> seen
              then FlLoader_rows E rows (acc @ [result]) (insert key seen)
              else FlLoader_rows E rows acc seen))) = Inr results"
    by (auto elim: bindE)
  show ?case
  proof (cases skip)
    case True
    with rest Cons.IH [of acc seen] skip show ?thesis by simp
  next
    case False
    with rest obtain res k where res: "FlLoader_prep_result E r = Inr res"
      and k: "FlLoader_key E res = Inr k"
      and tl: "(if k \<notin> seen
              then FlLoader_rows E rows (acc @ [res]) (insert k seen)
              else FlLoader_rows E rows acc seen) = Inr results"
      by (auto elim!: bindE)
    show ?thesis
    proof (cases "k \<in> seen")
      case True
      with tl have "FlLoader_rows E rows acc seen = Inr results" by simp
      from Cons.IH [OF this] obtain cands where
        c: "list_all2 (\<lambda>r c. FlLoader_prep_result E r = Inr c)
          (filter (\<lambda>r. FlLoader_skip_row r = Inr False) rows) cands"
        and ks: "\<forall>c \<in> set cands. \<exists>k. FlLoader_key E c = Inr k"
        and r: "results = acc @ first_seen (FlLoader_key E) (Inr ` seen) cands"
        by blast
      from True k have "FlLoader_key E res \<in> Inr ` seen" by simp
      with c ks r skip False res k show ?thesis
        by (intro exI [of _ "res # cands"]) simp
    next
      case nin: False
      with tl have "FlLoader_rows E rows (acc @ [res]) (insert k seen) = Inr results" by simp
      from Cons.IH [OF this] obtain cands where
        c: "list_all2 (\<lambda>r c. FlLoader_prep_result E r = Inr c)
          (filter (\<lambda>r. FlLoader_skip_row r = Inr False) rows) cands"
        and ks: "\<forall>c \<in> set cands. \<exists>k. FlLoader_key E c = Inr k"
        and r: "results = (acc @ [res]) @ first_seen (FlLoader_key E) (Inr ` insert k seen) cands"
        by blast
      from nin k have "FlLoader_key E res \<notin> Inr ` seen" by auto
      with c ks r skip False res k show ?thesis
        by (intro exI [of _ "res # cands"]) simp
    qed
  qed
qed

lemma FlLoader_load_Inr:
  assumes "FlLoader_load E rows st = (Inr (), st')"
  shows "\<exists>batch cands. st' = st @ [batch] \<and>
     list_all2 (\<lambda>r c. FlLoader_prep_result E r = Inr c)
       (filter (\<lambda>r. FlLoader_skip_row r = Inr False) rows) cands \<and>
     (\<forall>c \<in> set cands. \<exists>k. FlLoader_key E c = Inr k) \<and>
     batch = first_seen (FlLoader_key E) {} cands"
proof -
  from assms obtain batch where b: "FlLoader_rows E rows [] {} = Inr batch"
    and st': "st' = st @ [batch]"
    by (auto simp: FlLoader_load_def split: sum.splits)
  from FlLoader_rows_Inr [OF b] st' show ?thesis by auto
qed

lemma FlLoader_batch:
  assumes "FlLoader_load E rows st = (Inr (), st')"
  shows "\<exists>batch. st' = st @ [batch] \<and>
     (\<forall>res \<in> set batch. \<exists>r \<in> set rows. FlLoader_skip_row r = Inr False \<and>
        FlLoader_prep_result E r = Inr res)"
proof -
  from FlLoader_load_Inr [OF assms] obtain batch cands where st': "st' = st @ [batch]"
    and all: "list_all2 (\<lambda>r c. FlLoader_prep_result E r = Inr c)
       (filter (\<lambda>r. FlLoader_skip_row r = Inr False) rows) cands"
    and b: "batch = first_seen (FlLoader_key E) {} cands"
    by blast
  have "\<exists>r \<in> set rows. FlLoader_skip_row r = Inr False \<and> FlLoader_prep_result E r = Inr res"
    if "res \<in> set batch" for res
  proof -
    from that b set_first_seen have "res \<in> set cands" by fast
    from list_all2_in_right [OF all this] show ?thesis by auto
  qed
  with st' show ?thesis by blast
qed

lemma fl_load_collapse:
  "fst (FlLoader_load E rows st) = Inr () \<Longrightarrow>
   FlLoader_load E rows st = (Inr (), snd (FlLoader_load E rows st))"
  by (metis prod.collapse)

lemma batch_distinct_keys:
  assumes "(\<exists>batch cands. st' = [] @ [batch] \<and> P cands \<and>
       distinct (map key batch) \<and> Q batch cands) \<and> R"
  shows "\<exists>batch. st' = [batch] \<and> distinct (map key batch)"
  using assms by auto



lemma county_skip_False:
  "FlLoader_skip_row r = Inr False \<Longrightarrow> r ''OfficeDesc'' = Some od \<Longrightarrow>
   strip od \<in> target_offices"
  by (simp add: FlLoader_skip_row_def)

lemma batch_levels:
  assumes "\<exists>batch. st' = [] @ [batch] \<and>
     (\<forall>res \<in> set batch. \<exists>r \<in> set rows. \<exists>od. P r od \<and> Q od \<and> R res od \<and>
        (res ''reporting_level'' = Some (Str ''congressional_district_by_county'') \<longleftrightarrow>
           strip od = ''U.S. President by Congressional District'') \<and> S r res od)"
  shows "\<exists>batch. st' = [batch] \<and>
     list_all (\<lambda>res. \<exists>od. R res od \<and>
        (res ''reporting_level'' = Some (Str ''congressional_district_by_county'')) =
        (strip od = ''U.S. President by Congressional District'')) batch"
proof -
  from assms obtain batch where "st' = [batch]"
    and "\<forall>res \<in> set batch. \<exists>r \<in> set rows. \<exists>od. P r od \<and> Q od \<and> R res od \<and>
        (res ''reporting_level'' = Some (Str ''congressional_district_by_county'') \<longleftrightarrow>
           strip od = ''U.S. President by Congressional District'') \<and> S r res od"
    by auto
  then show ?thesis
    unfolding list_all_iff by blast
qed

lemma batch_districts:
  assumes "(\<exists>batch. st' = [] @ [batch] \<and>
       (\<forall>res \<in> set batch. \<exists>r \<in> set rows. \<exists>od. P r od \<and> R res od \<and>
          (res ''district'' \<noteq> None \<longleftrightarrow> strip od \<in> district_offices) \<and> S r res od)) \<and>
     (\<exists>pbatch. pst' = [] @ [pbatch] \<and>
       (\<forall>res \<in> set pbatch. \<exists>r \<in> set prows. \<exists>c d. P' r c \<and> Q' r d \<and> R' res c \<and>
          res ''district'' = Some (Str (strip d))))"
  shows "(\<exists>batch. st' = [batch] \<and>
       list_all (\<lambda>res. \<exists>od. R res od \<and>
         (res ''district'' \<noteq> None) = (strip od \<in> district_offices)) batch) \<and>
     (\<exists>pbatch. pst' = [pbatch] \<and> list_all (\<lambda>res. res ''district'' \<noteq> None) pbatch)"
proof -
  from assms obtain batch pbatch where "st' = [batch]"
    and a: "\<forall>res \<in> set batch. \<exists>r \<in> set rows. \<exists>od. P r od \<and> R res od \<and>
          (res ''district'' \<noteq> None \<longleftrightarrow> strip od \<in> district_offices) \<and> S r res od"
    and "pst' = [pbatch]"
    and b: "\<forall>res \<in> set pbatch. \<exists>r \<in> set prows. \<exists>c d. P' r c \<and> Q' r d \<and> R' res c \<and>
          res ''district'' = Some (Str (strip d))"
    by auto
  moreover from a have "list_all (\<lambda>res. \<exists>od. R res od \<and>
         (res ''district'' \<noteq> None) = (strip od \<in> district_offices)) batch"
    unfolding list_all_iff by blast
  moreover from b have "list_all (\<lambda>res. res ''district'' \<noteq> None) pbatch"
    unfolding list_all_iff by fastforce
  ultimately show ?thesis by blast
qed

lemma FlLoader_load_Inl:
  "fst (FlLoader_load E rows st) \<noteq> Inr () \<Longrightarrow> snd (FlLoader_load E rows st) = st"
  by (simp add: FlLoader_load_def split: sum.splits)

lemma PrecinctLoader_load_Inl:
  "fst (PrecinctLoader_load E rows st) \<noteq> Inr () \<Longrightarrow> snd (PrecinctLoader_load E rows st) = st"
  by (simp add: PrecinctLoader_load_def Let_def split: sum.splits)

lemma one_more_batch:
  "\<exists>batch cands. s = st @ [batch] \<and> P cands \<and> Q batch cands \<Longrightarrow>
   length s = Suc (length st)"
  by auto

section \<open>Deduplication\<close>

text \<open>
  C1, as amended. The claim speaks of both loaders, and the precinct-detail loader
  keeps no set of seen keys. What holds: in the batch the county-summary loader
  inserts no two results share a deduplication key, every result built from a row
  that was not skipped has its key in the batch, and the result kept for a key is the
  first one built with that key. The precinct-detail loader inserts one result for
  each row it does not skip.
\<close>

theorem county_batch_first_seen:
  assumes "FlLoader_load E rows st = (Inr (), st')"
    and "PrecinctLoader_load E prows pst = (Inr (), pst')"
  shows "(\<exists>batch cands. st' = st @ [batch] \<and>
       list_all2 (\<lambda>r c. FlLoader_prep_result E r = Inr c)
         (filter (\<lambda>r. FlLoader_skip_row r = Inr False) rows) cands \<and>
       distinct (map (FlLoader_key E) batch) \<and>
       (\<forall>res \<in> set batch. \<exists>k. FlLoader_key E res = Inr k) \<and>
       (\<forall>c \<in> set cands. \<exists>res \<in> set batch. FlLoader_key E res = FlLoader_key E c) \<and>
       (\<forall>res \<in> set batch.
          find (\<lambda>c. FlLoader_key E c = FlLoader_key E res) cands = Some res)) \<and>
     (\<exists>pbatch. pst' = pst @ [pbatch] \<and>
       length pbatch = length (filter (\<lambda>r. PrecinctLoader_skip_row r = Inr False) prows))"
proof -
  from FlLoader_load_Inr [OF assms(1)] obtain batch cands where st': "st' = st @ [batch]"
    and all: "list_all2 (\<lambda>r c. FlLoader_prep_result E r = Inr c)
       (filter (\<lambda>r. FlLoader_skip_row r = Inr False) rows) cands"
    and ks: "\<forall>c \<in> set cands. \<exists>k. FlLoader_key E c = Inr k"
    and b: "batch = first_seen (FlLoader_key E) {} cands"
    by blast
  have d: "distinct (map (FlLoader_key E) batch)"
    unfolding b by (rule distinct_first_seen)
  have sub: "set batch \<subseteq> set cands"
    unfolding b by (rule set_first_seen)
  with ks have k: "\<forall>res \<in> set batch. \<exists>k. FlLoader_key E res = Inr k"
    by blast
  have "FlLoader_key E ` set batch = FlLoader_key E ` set cands"
    unfolding b keys_first_seen by simp
  then have cover: "\<forall>c \<in> set cands. \<exists>res \<in> set batch. FlLoader_key E res = FlLoader_key E c"
    by (metis (no_types, lifting) image_iff)
  have first: "\<forall>res \<in> set batch.
      find (\<lambda>c. FlLoader_key E c = FlLoader_key E res) cands = Some res"
    unfolding b by (blast intro: find_first_seen)
  from PrecinctLoader_load_Inr [OF assms(2)] obtain pbatch where "pst' = pst @ [pbatch]"
    and "list_all2 (\<lambda>r res. PrecinctLoader_prep_precinct_result E
         ((election_kwargs E)(''reporting_level'' \<mapsto> Str ''precinct'')) r = Inr res)
       (filter (\<lambda>r. PrecinctLoader_skip_row r = Inr False) prows) pbatch"
    by blast
  then have p: "\<exists>pbatch. pst' = pst @ [pbatch] \<and>
       length pbatch = length (filter (\<lambda>r. PrecinctLoader_skip_row r = Inr False) prows)"
    by (auto dest: list_all2_lengthD)
  from st' all d k cover first p show ?thesis
    by blast
qed

theorem county_batch_first_seen_witness:
  "fst (FlLoader_load example_env
      [county_row ''Governor'' [] ''Leon'' ''100'',
       county_row ''Governor'' [] ''Leon'' ''250'',
       county_row ''City Council'' [] ''Leon'' ''7''] []) = Inr () \<and>
   fst (PrecinctLoader_load example_env
      [precinct_row ''Leon'' ''Governor'' [] ''Scott'' ''10''] []) = Inr () \<and>
   map (\<lambda>res. (FlLoader_key example_env res, res ''votes''))
     (concat (snd (FlLoader_load example_env
      [county_row ''Governor'' [] ''Leon'' ''100'',
       county_row ''Governor'' [] ''Leon'' ''250'',
       county_row ''City Council'' [] ''Leon'' ''7''] []))) =
     [(Inr ''governor-rick-scott-leon'', Some (Str ''100''))] \<and>
   (\<exists>batch. snd (FlLoader_load example_env
      [county_row ''Governor'' [] ''Leon'' ''100'',
       county_row ''Governor'' [] ''Leon'' ''250'',
       county_row ''City Council'' [] ''Leon'' ''7''] []) = [batch] \<and>
      distinct (map (FlLoader_key example_env) batch))"
proof -
  let ?rows = "[county_row ''Governor'' [] ''Leon'' ''100'',
       county_row ''Governor'' [] ''Leon'' ''250'',
       county_row ''City Council'' [] ''Leon'' ''7'']"
  let ?prows = "[precinct_row ''Leon'' ''Governor'' [] ''Scott'' ''10'']"
  have a: "fst (FlLoader_load example_env ?rows []) = Inr ()"
    by code_simp
  have b: "fst (PrecinctLoader_load example_env ?prows []) = Inr ()"
    by code_simp
  have c: "map (\<lambda>res. (FlLoader_key example_env res, res ''votes''))
     (concat (snd (FlLoader_load example_env ?rows []))) =
     [(Inr ''governor-rick-scott-leon'', Some (Str ''100''))]"
    by code_simp
  have d: "\<exists>batch. snd (FlLoader_load example_env ?rows []) = [batch] \<and>
      distinct (map (FlLoader_key example_env) batch)"
    by (rule batch_distinct_keys)
      (rule county_batch_first_seen [OF fl_load_collapse [OF a] load_collapse [OF b]])
  from a b c d show ?thesis
    by (intro conjI)
qed

text \<open>
  The claim as stated fails for the precinct-detail loader: two rows with one key
  give two results in the batch.
\<close>

theorem precinct_duplicates_counterexample:
  "map (\<lambda>res. (FlLoader_key example_env res, res ''votes''))
     (concat (snd (PrecinctLoader_load example_env
      [precinct_row ''Leon'' ''Governor'' [] ''Scott'' ''10'',
       precinct_row ''Leon'' ''Governor'' [] ''Scott'' ''12''] []))) =
     [(Inr ''governor-scott-101-library'', Some (Num 10)),
      (Inr ''governor-scott-101-library'', Some (Num 12))]"
  by code_simp

section \<open>Skipped rows\<close>



section \<open>Reporting level of county results\<close>

text \<open>
  C5, as amended. The claim speaks of every emitted result, and the results of the
  precinct-detail loader all carry the level \<^verbatim>\<open>precinct\<close>. What holds, for a common
  context without a reporting district: every result of the county-summary loader
  has a target office, its reporting level is
  \<^verbatim>\<open>congressional_district_by_county\<close> if and only if the office is
  \<^verbatim>\<open>U.S. President by Congressional District\<close>, in which case the reporting
  district is the trimmed \<^verbatim>\<open>Juris1num\<close>; for every other office the level is
  \<^verbatim>\<open>county\<close> and there is no reporting district.
\<close>

theorem county_reporting_level:
  assumes "FlLoader_load E rows st = (Inr (), st')"
    and "election_kwargs E ''reporting_district'' = None"
  shows "\<exists>batch. st' = st @ [batch] \<and>
     (\<forall>res \<in> set batch. \<exists>r \<in> set rows. \<exists>od. r ''OfficeDesc'' = Some od \<and>
        strip od \<in> target_offices \<and> res ''office'' = Some (Str (strip od)) \<and>
        (res ''reporting_level'' = Some (Str ''congressional_district_by_county'') \<longleftrightarrow>
           strip od = ''U.S. President by Congressional District'') \<and>
        (if strip od = ''U.S. President by Congressional District''
         then \<exists>j. r ''Juris1num'' = Some j \<and>
                res ''reporting_district'' = Some (Str (strip j))
         else res ''reporting_level'' = Some (Str ''county'') \<and>
              res ''reporting_district'' = None))"
proof -
  from FlLoader_batch [OF assms(1)] obtain batch where st': "st' = st @ [batch]"
    and all: "\<forall>res \<in> set batch. \<exists>r \<in> set rows. FlLoader_skip_row r = Inr False \<and>
        FlLoader_prep_result E r = Inr res"
    by blast
  have "\<exists>r \<in> set rows. \<exists>od. r ''OfficeDesc'' = Some od \<and>
        strip od \<in> target_offices \<and> res ''office'' = Some (Str (strip od)) \<and>
        (res ''reporting_level'' = Some (Str ''congressional_district_by_county'') \<longleftrightarrow>
           strip od = ''U.S. President by Congressional District'') \<and>
        (if strip od = ''U.S. President by Congressional District''
         then \<exists>j. r ''Juris1num'' = Some j \<and>
                res ''reporting_district'' = Some (Str (strip j))
         else res ''reporting_level'' = Some (Str ''county'') \<and>
              res ''reporting_district'' = None)"
    if "res \<in> set batch" for res
  proof -
    from all that obtain r where r: "r \<in> set rows" and s: "FlLoader_skip_row r = Inr False"
      and p: "FlLoader_prep_result E r = Inr res"
      by blast
    from county_prep_InrD [OF p] obtain od where od: "r ''OfficeDesc'' = Some od"
      and office: "res ''office'' = Some (Str (strip od))"
      and level: "if strip od = ''U.S. President by Congressional District''
        then res ''reporting_level'' = Some (Str ''congressional_district_by_county'') \<and>
          (\<exists>j. r ''Juris1num'' = Some j \<and> res ''reporting_district'' = Some (Str (strip j)))
        else res ''reporting_level'' = Some (Str ''county'') \<and>
          res ''reporting_district'' = election_kwargs E ''reporting_district''"
      by blast
    have t: "strip od \<in> target_offices"
      using s od by (rule county_skip_False)
    have "(res ''reporting_level'' = Some (Str ''congressional_district_by_county'') \<longleftrightarrow>
           strip od = ''U.S. President by Congressional District'') \<and>
        (if strip od = ''U.S. President by Congressional District''
         then \<exists>j. r ''Juris1num'' = Some j \<and>
                res ''reporting_district'' = Some (Str (strip j))
         else res ''reporting_level'' = Some (Str ''county'') \<and>
              res ''reporting_district'' = None)"
      using level assms(2)
      by (cases "strip od = ''U.S. President by Congressional District''") simp_all
    with r od t office show ?thesis by blast
  qed
  with st' show ?thesis by blast
qed

theorem county_reporting_level_witness:
  "fst (FlLoader_load example_env
      [county_row ''U.S. President by Congressional District'' '' 2 '' ''Leon'' ''100'',
       county_row ''Governor'' ''  '' ''Leon'' ''250''] []) = Inr () \<and>
   election_kwargs example_env ''reporting_district'' = None \<and>
   map (\<lambda>res. (res ''office'', res ''reporting_level'', res ''reporting_district''))
     (concat (snd (FlLoader_load example_env
      [county_row ''U.S. President by Congressional District'' '' 2 '' ''Leon'' ''100'',
       county_row ''Governor'' ''  '' ''Leon'' ''250''] []))) =
     [(Some (Str ''U.S. President by Congressional District''),
       Some (Str ''congressional_district_by_county''), Some (Str ''2'')),
      (Some (Str ''Governor''), Some (Str ''county''), None)] \<and>
   (\<exists>batch. snd (FlLoader_load example_env
      [county_row ''U.S. President by Congressional District'' '' 2 '' ''Leon'' ''100'',
       county_row ''Governor'' ''  '' ''Leon'' ''250''] []) = [batch] \<and>
     list_all (\<lambda>res. \<exists>od. res ''office'' = Some (Str (strip od)) \<and>
        (res ''reporting_level'' = Some (Str ''congressional_district_by_county'')) =
        (strip od = ''U.S. President by Congressional District'')) batch)"
proof -
  let ?rows = "[county_row ''U.S. President by Congressional District'' '' 2 '' ''Leon'' ''100'',
       county_row ''Governor'' ''  '' ''Leon'' ''250'']"
  have a: "fst (FlLoader_load example_env ?rows []) = Inr ()"
    by code_simp
  have b: "election_kwargs example_env ''reporting_district'' = None"
    by code_simp
  have c: "map (\<lambda>res. (res ''office'', res ''reporting_level'', res ''reporting_district''))
     (concat (snd (FlLoader_load example_env ?rows []))) =
     [(Some (Str ''U.S. President by Congressional District''),
       Some (Str ''congressional_district_by_county''), Some (Str ''2'')),
      (Some (Str ''Governor''), Some (Str ''county''), None)]"
    by code_simp
  have d: "\<exists>batch. snd (FlLoader_load example_env ?rows []) = [batch] \<and>
     list_all (\<lambda>res. \<exists>od. res ''office'' = Some (Str (strip od)) \<and>
        (res ''reporting_level'' = Some (Str ''congressional_district_by_county'')) =
        (strip od = ''U.S. President by Congressional District'')) batch"
    by (rule batch_levels) (rule county_reporting_level [OF fl_load_collapse [OF a] b])
  from a b c d show ?thesis
    by (intro conjI)
qed

text \<open>
  The claim as stated fails for the precinct-detail loader: a result with the office
  \<^verbatim>\<open>U.S. President by Congressional District\<close> has the level \<^verbatim>\<open>precinct\<close>, and so
  has one with another target office.
\<close>

theorem precinct_level_counterexample:
  "map (\<lambda>res. (res ''office'', res ''reporting_level'', res ''reporting_district''))
     (concat (snd (PrecinctLoader_load example_env
      [precinct_row ''Leon'' ''U.S. President by Congressional District'' ''2'' ''Obama'' ''10'',
       precinct_row ''Leon'' ''Governor'' [] ''Scott'' ''12''] []))) =
     [(Some (Str ''U.S. President by Congressional District''), Some (Str ''precinct''), None),
      (Some (Str ''Governor''), Some (Str ''precinct''), None)]"
  by code_simp

section \<open>District of a result\<close>

text \<open>
  C6, as amended. The claim speaks of both loaders. What holds, for a common context
  without a district: a result of the county-summary loader has a district if and
  only if its office is one of the district offices, and the district is then the
  trimmed \<^verbatim>\<open>Juris1num\<close>; every result of the precinct-detail loader has a district,
  the trimmed district field of its row, whatever its office.
\<close>

theorem district_presence:
  assumes "FlLoader_load E rows st = (Inr (), st')"
    and "election_kwargs E ''district'' = None"
    and "PrecinctLoader_load E prows pst = (Inr (), pst')"
  shows "(\<exists>batch. st' = st @ [batch] \<and>
       (\<forall>res \<in> set batch. \<exists>r \<in> set rows. \<exists>od. r ''OfficeDesc'' = Some od \<and>
          res ''office'' = Some (Str (strip od)) \<and>
          (res ''district'' \<noteq> None \<longleftrightarrow> strip od \<in> district_offices) \<and>
          (strip od \<in> district_offices \<longrightarrow>
             (\<exists>j. r ''Juris1num'' = Some j \<and> res ''district'' = Some (Str (strip j)))))) \<and>
     (\<exists>pbatch. pst' = pst @ [pbatch] \<and>
       (\<forall>res \<in> set pbatch. \<exists>r \<in> set prows. \<exists>c d. r ''contest_name'' = Some c \<and>
          r ''district'' = Some d \<and> res ''office'' = Some (Str c) \<and>
          res ''district'' = Some (Str (strip d))))"
proof -
  from FlLoader_batch [OF assms(1)] obtain batch where st': "st' = st @ [batch]"
    and all: "\<forall>res \<in> set batch. \<exists>r \<in> set rows. FlLoader_skip_row r = Inr False \<and>
        FlLoader_prep_result E r = Inr res"
    by blast
  have c: "\<exists>r \<in> set rows. \<exists>od. r ''OfficeDesc'' = Some od \<and>
          res ''office'' = Some (Str (strip od)) \<and>
          (res ''district'' \<noteq> None \<longleftrightarrow> strip od \<in> district_offices) \<and>
          (strip od \<in> district_offices \<longrightarrow>
             (\<exists>j. r ''Juris1num'' = Some j \<and> res ''district'' = Some (Str (strip j))))"
    if "res \<in> set batch" for res
  proof -
    from all that obtain r where r: "r \<in> set rows"
      and p: "FlLoader_prep_result E r = Inr res"
      by blast
    from county_prep_InrD [OF p] obtain od where od: "r ''OfficeDesc'' = Some od"
      and office: "res ''office'' = Some (Str (strip od))"
      and d: "if strip od \<in> district_offices
        then \<exists>j. r ''Juris1num'' = Some j \<and> res ''district'' = Some (Str (strip j))
        else res ''district'' = election_kwargs E ''district''"
      by blast
    have "(res ''district'' \<noteq> None \<longleftrightarrow> strip od \<in> district_offices) \<and>
          (strip od \<in> district_offices \<longrightarrow>
             (\<exists>j. r ''Juris1num'' = Some j \<and> res ''district'' = Some (Str (strip j))))"
      using d assms(2) by (cases "strip od \<in> district_offices") auto
    with r od office show ?thesis by blast
  qed
  from PrecinctLoader_batch [OF assms(3)] obtain pbatch where pst': "pst' = pst @ [pbatch]"
    and pall: "\<forall>res \<in> set pbatch. \<exists>r \<in> set prows. PrecinctLoader_skip_row r = Inr False \<and>
        PrecinctLoader_prep_precinct_result E
          ((election_kwargs E)(''reporting_level'' \<mapsto> Str ''precinct'')) r = Inr res"
    by blast
  have p: "\<exists>r \<in> set prows. \<exists>c d. r ''contest_name'' = Some c \<and>
          r ''district'' = Some d \<and> res ''office'' = Some (Str c) \<and>
          res ''district'' = Some (Str (strip d))"
    if "res \<in> set pbatch" for res
  proof -
    from pall that obtain r where r: "r \<in> set prows"
      and p: "PrecinctLoader_prep_precinct_result E
          ((election_kwargs E)(''reporting_level'' \<mapsto> Str ''precinct'')) r = Inr res"
      by blast
    from prep_precinct_InrD [OF p] obtain c d where "r ''contest_name'' = Some c"
      "r ''district'' = Some d" "res ''office'' = Some (Str c)"
      "res ''district'' = Some (Str (strip d))"
      by auto
    with r show ?thesis by blast
  qed
  from st' c pst' p show ?thesis by blast
qed

theorem district_presence_witness:
  "fst (FlLoader_load example_env
      [county_row ''State Senator'' '' 3 '' ''Leon'' ''100'',
       county_row ''Governor'' '' 3 '' ''Leon'' ''250''] []) = Inr () \<and>
   election_kwargs example_env ''district'' = None \<and>
   fst (PrecinctLoader_load example_env
      [precinct_row ''Leon'' ''State Senator'' '' 3 '' ''Montford'' ''10''] []) = Inr () \<and>
   map (\<lambda>res. (res ''office'', res ''district''))
     (concat (snd (FlLoader_load example_env
      [county_row ''State Senator'' '' 3 '' ''Leon'' ''100'',
       county_row ''Governor'' '' 3 '' ''Leon'' ''250''] []))) =
     [(Some (Str ''State Senator''), Some (Str ''3'')), (Some (Str ''Governor''), None)] \<and>
   ((\<exists>batch. snd (FlLoader_load example_env
      [county_row ''State Senator'' '' 3 '' ''Leon'' ''100'',
       county_row ''Governor'' '' 3 '' ''Leon'' ''250''] []) = [batch] \<and>
       list_all (\<lambda>res. \<exists>od. res ''office'' = Some (Str (strip od)) \<and>
         (res ''district'' \<noteq> None) = (strip od \<in> district_offices)) batch) \<and>
    (\<exists>pbatch. snd (PrecinctLoader_load example_env
      [precinct_row ''Leon'' ''State Senator'' '' 3 '' ''Montford'' ''10''] []) = [pbatch] \<and>
       list_all (\<lambda>res. res ''district'' \<noteq> None) pbatch))"
proof -
  let ?rows = "[county_row ''State Senator'' '' 3 '' ''Leon'' ''100'',
       county_row ''Governor'' '' 3 '' ''Leon'' ''250'']"
  let ?prows = "[precinct_row ''Leon'' ''State Senator'' '' 3 '' ''Montford'' ''10'']"
  have a: "fst (FlLoader_load example_env ?rows []) = Inr ()"
    by code_simp
  have b: "election_kwargs example_env ''district'' = None"
    by code_simp
  have c: "fst (PrecinctLoader_load example_env ?prows []) = Inr ()"
    by code_simp
  have d: "map (\<lambda>res. (res ''office'', res ''district''))
     (concat (snd (FlLoader_load example_env ?rows []))) =
     [(Some (Str ''State Senator''), Some (Str ''3'')), (Some (Str ''Governor''), None)]"
    by code_simp
  have e: "(\<exists>batch. snd (FlLoader_load example_env ?rows []) = [batch] \<and>
       list_all (\<lambda>res. \<exists>od. res ''office'' = Some (Str (strip od)) \<and>
         (res ''district'' \<noteq> None) = (strip od \<in> district_offices)) batch) \<and>
    (\<exists>pbatch. snd (PrecinctLoader_load example_env ?prows []) = [pbatch] \<and>
       list_all (\<lambda>res. res ''district'' \<noteq> None) pbatch)"
    by (rule batch_districts)
      (rule district_presence [OF fl_load_collapse [OF a] b load_collapse [OF c]])
  from a b c d e [THEN conjunct1] e [THEN conjunct2] show ?thesis
    by (intro conjI)
qed

text \<open>
  The claim as stated fails for the precinct-detail loader: results for
  \<^verbatim>\<open>Governor\<close> and \<^verbatim>\<open>Attorney General\<close> carry a district.
\<close>

theorem precinct_district_counterexample:
  "map (\<lambda>res. (res ''office'', res ''district''))
     (concat (snd (PrecinctLoader_load example_env
      [precinct_row ''Leon'' ''Governor'' '' 5 '' ''Scott'' ''12'',
       precinct_row ''Leon'' ''Attorney General'' [] ''Bondi'' ''11''] []))) =
     [(Some (Str ''Governor''), Some (Str ''5'')),
      (Some (Str ''Attorney General''), Some (Str []))] \<and>
   ''Governor'' \<notin> district_offices \<and> ''Attorney General'' \<notin> district_offices"
  by code_simp

section \<open>One insert for each file\<close>

text \<open>
  C7. A load that succeeds has called the bulk insert of the store exactly once, with
  the complete batch: for the county-summary loader the first-seen results of all
  rows that were not skipped, for the precinct-detail loader the results of all rows
  that were not skipped. A load that ends with an error has not called it: the store
  is as it was before.
\<close>

theorem single_bulk_insert:
  "(fst (FlLoader_load E rows st) = Inr () \<longrightarrow>
      (\<exists>batch cands. snd (FlLoader_load E rows st) = st @ [batch] \<and>
         list_all2 (\<lambda>r c. FlLoader_prep_result E r = Inr c)
           (filter (\<lambda>r. FlLoader_skip_row r = Inr False) rows) cands \<and>
         batch = first_seen (FlLoader_key E) {} cands)) \<and>
   (fst (FlLoader_load E rows st) \<noteq> Inr () \<longrightarrow> snd (FlLoader_load E rows st) = st) \<and>
   (fst (PrecinctLoader_load E prows pst) = Inr () \<longrightarrow>
      (\<exists>batch. snd (PrecinctLoader_load E prows pst) = pst @ [batch] \<and>
         list_all2 (\<lambda>r res. PrecinctLoader_prep_precinct_result E
             ((election_kwargs E)(''reporting_level'' \<mapsto> Str ''precinct'')) r = Inr res)
           (filter (\<lambda>r. PrecinctLoader_skip_row r = Inr False) prows) batch)) \<and>
   (fst (PrecinctLoader_load E prows pst) \<noteq> Inr () \<longrightarrow>
      snd (PrecinctLoader_load E prows pst) = pst)"
proof (intro conjI impI)
  assume "fst (FlLoader_load E rows st) = Inr ()"
  from FlLoader_load_Inr [OF fl_load_collapse [OF this]]
  show "\<exists>batch cands. snd (FlLoader_load E rows st) = st @ [batch] \<and>
         list_all2 (\<lambda>r c. FlLoader_prep_result E r = Inr c)
           (filter (\<lambda>r. FlLoader_skip_row r = Inr False) rows) cands \<and>
         batch = first_seen (FlLoader_key E) {} cands"
    by blast
next
  assume "fst (FlLoader_load E rows st) \<noteq> Inr ()"
  then show "snd (FlLoader_load E rows st) = st"
    by (rule FlLoader_load_Inl)
next
  assume "fst (PrecinctLoader_load E prows pst) = Inr ()"
  from PrecinctLoader_load_Inr [OF load_collapse [OF this]]
  show "\<exists>batch. snd (PrecinctLoader_load E prows pst) = pst @ [batch] \<and>
         list_all2 (\<lambda>r res. PrecinctLoader_prep_precinct_result E
             ((election_kwargs E)(''reporting_level'' \<mapsto> Str ''precinct'')) r = Inr res)
           (filter (\<lambda>r. PrecinctLoader_skip_row r = Inr False) prows) batch"
    by blast
next
  assume "fst (PrecinctLoader_load E prows pst) \<noteq> Inr ()"
  then show "snd (PrecinctLoader_load E prows pst) = pst"
    by (rule PrecinctLoader_load_Inl)
qed

theorem single_bulk_insert_witness:
  "fst (FlLoader_load example_env
      [county_row ''Governor'' [] ''Leon'' ''100'',
       county_row ''Governor'' [] ''Leon'' ''100'',
       county_row ''City Council'' [] ''Leon'' ''7''] [[]]) = Inr () \<and>
   length (snd (FlLoader_load example_env
      [county_row ''Governor'' [] ''Leon'' ''100'',
       county_row ''Governor'' [] ''Leon'' ''100'',
       county_row ''City Council'' [] ''Leon'' ''7''] [[]])) = 2 \<and>
   map length (snd (FlLoader_load example_env
      [county_row ''Governor'' [] ''Leon'' ''100'',
       county_row ''Governor'' [] ''Leon'' ''100'',
       county_row ''City Council'' [] ''Leon'' ''7''] [[]])) = [0, 1] \<and>
   fst (PrecinctLoader_load example_env
      [precinct_row ''Leon'' ''Governor'' [] ''Scott'' ''10'',
       precinct_row ''Alachua'' ''Governor'' [] ''Scott'' ''20''] [[]]) = Inl IndexError \<and>
   snd (PrecinctLoader_load example_env
      [precinct_row ''Leon'' ''Governor'' [] ''Scott'' ''10'',
       precinct_row ''Alachua'' ''Governor'' [] ''Scott'' ''20''] [[]]) = [[]]"
proof -
  let ?rows = "[county_row ''Governor'' [] ''Leon'' ''100'',
       county_row ''Governor'' [] ''Leon'' ''100'',
       county_row ''City Council'' [] ''Leon'' ''7'']"
  let ?prows = "[precinct_row ''Leon'' ''Governor'' [] ''Scott'' ''10'',
       precinct_row ''Alachua'' ''Governor'' [] ''Scott'' ''20'']"
  note t = single_bulk_insert [of example_env ?rows "[[]]" ?prows "[[]]"]
  have a: "fst (FlLoader_load example_env ?rows [[]]) = Inr ()"
    by code_simp
  have b: "map length (snd (FlLoader_load example_env ?rows [[]])) = [0, 1]"
    by code_simp
  have c: "fst (PrecinctLoader_load example_env ?prows [[]]) = Inl IndexError"
    by code_simp
  then have c': "fst (PrecinctLoader_load example_env ?prows [[]]) \<noteq> Inr ()"
    by simp
  from t a have "\<exists>batch cands. snd (FlLoader_load example_env ?rows [[]]) = [[]] @ [batch] \<and>
         list_all2 (\<lambda>r c. FlLoader_prep_result example_env r = Inr c)
           (filter (\<lambda>r. FlLoader_skip_row r = Inr False) ?rows) cands \<and>
         batch = first_seen (FlLoader_key example_env) {} cands"
    by blast
  from one_more_batch [OF this]
  have d: "length (snd (FlLoader_load example_env ?rows [[]])) = 2"
    by simp
  from t c' have e: "snd (PrecinctLoader_load example_env ?prows [[]]) = [[]]"
    by blast
  from a d b c e show ?thesis
    by (intro conjI)
qed

end
